theory Spec2Isabelle
  imports Main "HOL-Library.Word"
begin

section \<open>Errors, panics and the calls that leave the program\<close>

text \<open>
  A Go \<^verbatim>\<open>error\<close> is either created with a message (\<^verbatim>\<open>fmt.Errorf\<close> without
  \<^verbatim>\<open>%w\<close>, or an error handed back by the AWS SDK or the operating system) or wraps
  another error behind a prefix (\<^verbatim>\<open>fmt.Errorf("prefix: %w", err)\<close>).
  \<open>Error\<close> is the text of \<^verbatim>\<open>err.Error()\<close>.
\<close>

datatype error = Err string | Wrap string error

fun Error :: "error \<Rightarrow> string" where
  "Error (Err msg) = msg"
| "Error (Wrap prefix err) = prefix @ Error err"

text \<open>
  A call either returns or panics (a nil pointer dereferenced). A Go result pair
  \<^verbatim>\<open>(T, error)\<close> is a sum with the error on the left.
\<close>

datatype 'a outcome = Return 'a | Panic

text \<open>
  The calls made on the outside world, in the order they are made: the parameter store,
  the instance query, the local listener of a port probe, the start of a child process
  and its kill. Log output is not recorded.
\<close>

datatype event =
    Ev_GetParameter string
  | Ev_GetParameters "string list"
  | Ev_DescribeInstances "(string \<times> string list) list"
  | Ev_Listen int
  | Ev_Start "string list"
  | Ev_Kill nat

fun is_DescribeInstances :: "event \<Rightarrow> bool" where
  "is_DescribeInstances (Ev_DescribeInstances fs) = True"
| "is_DescribeInstances e = False"

fun is_Kill :: "event \<Rightarrow> bool" where
  "is_Kill (Ev_Kill p) = True"
| "is_Kill e = False"

section \<open>The Go library functions the program calls\<close>

text \<open>
  \<^verbatim>\<open>strings.ReplaceAll(s, old, new)\<close>: the non-overlapping occurrences of \<open>old\<close> in
  \<open>s\<close>, found from the left, are replaced by \<open>new\<close>. With an empty \<open>old\<close> Go
  inserts \<open>new\<close> before every character and at the end (the program never does that:
  its \<open>old\<close> is always the placeholder token). Strings are byte sequences.
\<close>

function ReplaceAll :: "string \<Rightarrow> string \<Rightarrow> string \<Rightarrow> string" where
  "ReplaceAll s old new =
     (if old = [] then new @ concat (map (\<lambda>c. c # new) s)
      else if s = [] then []
      else if take (length old) s = old then new @ ReplaceAll (drop (length old) s) old new
      else hd s # ReplaceAll (tl s) old new)"
  by pat_completeness auto
termination
  by (relation "measure (\<lambda>(s, old, new). length s)") (auto simp: neq_Nil_conv)

declare ReplaceAll.simps [simp del]

text \<open>
  \<^verbatim>\<open>strings.Split(s, sep)\<close> for a non-empty separator: the pieces of \<open>s\<close> between
  the occurrences of \<open>sep\<close>, one more than there are occurrences. \<open>cur\<close> is the piece
  being read. With an empty separator Go splits after every character.
\<close>

function Split_from :: "string \<Rightarrow> string \<Rightarrow> string \<Rightarrow> string list" where
  "Split_from cur s sep =
     (if s = [] then [cur]
      else if sep \<noteq> [] \<and> take (length sep) s = sep
        then cur # Split_from [] (drop (length sep) s) sep
      else Split_from (cur @ [hd s]) (tl s) sep)"
  by pat_completeness auto
termination
  by (relation "measure (\<lambda>(cur, s, sep). length s)") (auto simp: neq_Nil_conv)

declare Split_from.simps [simp del]

definition Split :: "string \<Rightarrow> string \<Rightarrow> string list" where
  "Split s sep = (if sep = [] then map (\<lambda>c. [c]) s else Split_from [] s sep)"

text \<open>The verb \<^verbatim>\<open>%d\<close> of \<^verbatim>\<open>fmt\<close>: a signed decimal numeral.\<close>

fun digits :: "nat \<Rightarrow> string" where
  "digits n =
     (if n < 10 then [''0123456789'' ! n]
      else digits (n div 10) @ [''0123456789'' ! (n mod 10)])"

declare digits.simps [simp del]

definition fmt_int :: "int \<Rightarrow> string" where
  "fmt_int i = (if i < 0 then CHR ''-'' # digits (nat (- i)) else digits (nat i))"

text \<open>Go's \<^verbatim>\<open>int\<close> is a 64-bit two's complement integer (on a 64-bit platform).\<close>

definition fmt_d :: "64 word \<Rightarrow> string" where
  "fmt_d n = fmt_int (sint n)"

section \<open>Package config\<close>

record ConfigValue =
  Value :: string
  SSMParam :: string

record PortRange =
  Start :: "64 word"
  End :: "64 word"

record ServiceConfig =
  Host :: ConfigValue
  RemotePort :: ConfigValue
  LocalPortRange :: PortRange
  ServiceDetails :: "string list"

text \<open>Of \<^verbatim>\<open>Config\<close>, the two fields of \<^verbatim>\<open>TunnelConfig\<close> that the code below reads.\<close>

record Config =
  JumphostFilter :: string
  Services :: "string \<rightharpoonup> ServiceConfig"

text \<open>
  \<^verbatim>\<open>GetValue\<close>. The argument \<open>ssmClient\<close> is the method \<^verbatim>\<open>GetParameter\<close> of the
  interface \<^verbatim>\<open>SSMClient\<close>; the call through the interface is recorded in the trace.
\<close>

definition GetValue ::
  "(string \<Rightarrow> (error + string) outcome) \<Rightarrow> ConfigValue \<Rightarrow> string \<Rightarrow> event list
     \<Rightarrow> (error + string) outcome \<times> event list" where
  "GetValue ssmClient cv placeholder tr =
     (if SSMParam cv \<noteq> [] \<and> Value cv \<noteq> []
        then (Return (Inl (Err ''cannot specify both value and SSM parameter'')), tr)
      else if SSMParam cv \<noteq> []
        then (let paramPath = ReplaceAll (SSMParam cv) ''${PLACEHOLDER}'' placeholder
              in (ssmClient paramPath, tr @ [Ev_GetParameter paramPath]))
      else if Value cv \<noteq> [] then (Return (Inr (Value cv)), tr)
      else (Return (Inl (Err ''no value or SSM parameter specified'')), tr))"

definition GetJumphostFilter :: "Config \<Rightarrow> string \<Rightarrow> string" where
  "GetJumphostFilter c env' = ReplaceAll (JumphostFilter c) ''${PLACEHOLDER}'' env'"

definition GetServiceConfig :: "Config \<Rightarrow> string \<Rightarrow> error + ServiceConfig" where
  "GetServiceConfig c serviceName =
     (case Services c serviceName of
        Some service \<Rightarrow> Inr service
      | None \<Rightarrow> Inl (Err (''unknown service: '' @ serviceName)))"

section \<open>Package aws\<close>

text \<open>
  The values of the AWS SDK that the code reads. A field that is a pointer in Go is an
  option: \<open>None\<close> is nil. \<open>State\<close> is the name inside \<^verbatim>\<open>instance.State\<close>, which
  is itself a pointer. (The value fields of a tag and of a parameter are renamed: one
  theory has one constant \<open>Value\<close>.)
\<close>

record Tag =
  Key :: "string option"
  TagValue :: "string option"

record Instance =
  InstanceId :: "string option"
  State :: "string option"
  Tags :: "Tag list"

record Parameter =
  Name :: "string option"
  ParameterValue :: "string option"

text \<open>
  The outside world: what the SDK clients, the random source, the network stack and the
  operating system answer. \<open>SSM_GetParameter\<close> gives \<^verbatim>\<open>result.Parameter\<close> (a
  pointer), \<open>SSM_GetParameters\<close> gives \<^verbatim>\<open>output.Parameters\<close>,
  \<open>EC2_DescribeInstances\<close> gives the instances of each reservation, \<open>net_Listen\<close>
  tells whether a listener can be bound to a port, \<open>exec_Start\<close> gives the process id
  of the started child, and \<open>Process_Kill\<close> the error of a kill, if any. Each answer is
  a function of the arguments of the call.
\<close>

record world =
  SSM_GetParameter :: "string \<Rightarrow> bool \<Rightarrow> error + Parameter option"
  SSM_GetParameters :: "string list \<Rightarrow> error + Parameter list"
  EC2_DescribeInstances :: "(string \<times> string list) list \<Rightarrow> error + Instance list list"
  rand_Intn :: "nat \<Rightarrow> nat"
  net_Listen :: "int \<Rightarrow> bool"
  exec_Start :: "string list \<Rightarrow> error + nat"
  Process_Kill :: "nat \<Rightarrow> error option"

definition GetParameterValue :: "world \<Rightarrow> string \<Rightarrow> bool \<Rightarrow> (error + string) outcome" where
  "GetParameterValue c name withDecryption =
     (case SSM_GetParameter c name withDecryption of
        Inl err \<Rightarrow> Return (Inl (Wrap (''failed to get parameter '' @ name @ '': '') err))
      | Inr None \<Rightarrow> Panic
      | Inr (Some parameter) \<Rightarrow>
          (case ParameterValue parameter of
             None \<Rightarrow> Return (Inl (Err (''parameter '' @ name @ '' has no value'')))
           | Some v \<Rightarrow> Return (Inr v)))"

definition GetParameter :: "world \<Rightarrow> string \<Rightarrow> (error + string) outcome" where
  "GetParameter c name = GetParameterValue c name True"

text \<open>
  \<^verbatim>\<open>GetParametersByPath\<close>: the loop over batches of ten names, with its index \<open>i\<close>
  and the parameters collected so far, then the check that something was found.
\<close>

function GetParametersByPath_loop ::
  "world \<Rightarrow> string list \<Rightarrow> nat \<Rightarrow> Parameter list \<Rightarrow> event list
     \<Rightarrow> (error + Parameter list) \<times> event list" where
  "GetParametersByPath_loop c paths i parameters tr =
     (if i < length paths then
        (let end' = (if i + 10 > length paths then length paths else i + 10);
             batch = take (end' - i) (drop i paths)
         in case SSM_GetParameters c batch of
              Inl err \<Rightarrow>
                (Inl (Wrap ''failed to get parameters: '' err), tr @ [Ev_GetParameters batch])
            | Inr output \<Rightarrow>
                GetParametersByPath_loop c paths (i + 10) (parameters @ output)
                  (tr @ [Ev_GetParameters batch]))
      else (Inr parameters, tr))"
  by pat_completeness auto
termination
  by (relation "measure (\<lambda>(c, paths, i, parameters, tr). length paths - i)") auto

declare GetParametersByPath_loop.simps [simp del]

definition GetParametersByPath ::
  "world \<Rightarrow> string list \<Rightarrow> event list \<Rightarrow> (error + Parameter list) \<times> event list" where
  "GetParametersByPath c paths tr =
     (case GetParametersByPath_loop c paths 0 [] tr of
        (Inl err, tr') \<Rightarrow> (Inl err, tr')
      | (Inr parameters, tr') \<Rightarrow>
          if length parameters = 0 then (Inl (Err ''no parameters found''), tr')
          else (Inr parameters, tr'))"

text \<open>
  \<^verbatim>\<open>Client.GetJumphost\<close>. \<^verbatim>\<open>rand.Intn(n)\<close> returns a number below \<open>n\<close>: the
  draw of the world is taken modulo \<open>n\<close>, so that every world keeps that contract.
\<close>

definition Client_GetJumphost ::
  "world \<Rightarrow> string \<Rightarrow> string \<Rightarrow> event list \<Rightarrow> (error + Instance) \<times> event list" where
  "Client_GetJumphost c env' filter0 tr =
     (let filter' = ReplaceAll filter0 ''${PLACEHOLDER}'' env';
          filters = [(''tag:Name'', [filter']), (''instance-state-name'', [''running''])];
          tr' = tr @ [Ev_DescribeInstances filters]
      in case EC2_DescribeInstances c filters of
           Inl err \<Rightarrow> (Inl (Wrap ''failed to describe instances: '' err), tr')
         | Inr reservations \<Rightarrow>
             (let instances = filter (\<lambda>instance. State instance = Some ''running'')
                                (concat reservations)
              in if length instances = 0
                 then (Inl (Err (''no running instances found matching filter: '' @ filter')), tr')
                 else (Inr (instances ! (rand_Intn c (length instances) mod length instances)),
                       tr')))"

section \<open>Package tunnel\<close>

text \<open>
  A started \<^verbatim>\<open>exec.Cmd\<close>: its argument vector and the id of its process. The
  \<^verbatim>\<open>sync.Map\<close> of the manager is an association list with one entry for each key;
  \<^verbatim>\<open>Range\<close> visits the entries in an order that Go leaves open, here the order of
  the list. \<open>effects\<close> is not a field of the Go struct: it is the trace of the calls
  made so far. The field \<^verbatim>\<open>client\<close> is the world, passed to each function.
\<close>

record Cmd =
  Args :: "string list"
  Pid :: nat

record Manager =
  config :: Config
  env :: string
  tunnels :: "(string \<times> Cmd) list"
  verbose :: bool
  jumphost :: "Instance option"
  effects :: "event list"

fun Store :: "(string \<times> Cmd) list \<Rightarrow> string \<Rightarrow> Cmd \<Rightarrow> (string \<times> Cmd) list" where
  "Store [] key value = [(key, value)]"
| "Store ((k, v) # rest) key value =
     (if k = key then (key, value) # rest else (k, v) # Store rest key value)"

definition Manager_GetJumphost :: "world \<Rightarrow> Manager \<Rightarrow> (error + Instance) \<times> event list" where
  "Manager_GetJumphost c m =
     (let filter' = GetJumphostFilter (config m) (env m)
      in Client_GetJumphost c (env m) filter' (effects m))"

fun getInstanceName_tags :: "Tag list \<Rightarrow> string outcome" where
  "getInstanceName_tags [] = Return ''unnamed''"
| "getInstanceName_tags (tag # rest) =
     (case Key tag of
        None \<Rightarrow> Panic
      | Some k \<Rightarrow>
          if k = ''Name'' then (case TagValue tag of None \<Rightarrow> Panic | Some v \<Rightarrow> Return v)
          else getInstanceName_tags rest)"

definition getInstanceName :: "Instance \<Rightarrow> string outcome" where
  "getInstanceName instance = getInstanceName_tags (Tags instance)"

definition isPortAvailable :: "world \<Rightarrow> 64 word \<Rightarrow> event list \<Rightarrow> bool \<times> event list" where
  "isPortAvailable c port tr = (net_Listen c (sint port), tr @ [Ev_Listen (sint port)])"

text \<open>
  \<^verbatim>\<open>findAvailablePort\<close>: the loop \<^verbatim>\<open>for port := start; port <= end; port++\<close>, on
  64-bit integers whose increment wraps around. The loop need not end (when \<open>end\<close> is
  the greatest integer the test \<^verbatim>\<open>port <= end\<close> never fails): not returning is
  \<open>None\<close>.
\<close>

partial_function (option) findAvailablePort_loop ::
  "world \<Rightarrow> 64 word \<Rightarrow> 64 word \<Rightarrow> 64 word \<Rightarrow> event list
     \<Rightarrow> ((error + 64 word) \<times> event list) option" where
  "findAvailablePort_loop c start end port tr =
     (if port \<le>s end then
        (if fst (isPortAvailable c port tr)
         then Some (Inr port, snd (isPortAvailable c port tr))
         else findAvailablePort_loop c start end (port + 1) (snd (isPortAvailable c port tr)))
      else Some (Inl (Err (''no available ports in range '' @ fmt_d start @ ''-'' @ fmt_d end)),
                 tr))"

definition findAvailablePort ::
  "world \<Rightarrow> 64 word \<Rightarrow> 64 word \<Rightarrow> event list \<Rightarrow> ((error + 64 word) \<times> event list) option" where
  "findAvailablePort c start end tr = findAvailablePort_loop c start end start tr"

text \<open>
  \<^verbatim>\<open>CreateTunnel\<close>, lines 61 to 71: the jumphost is looked up when the manager has
  none. \<open>Return None\<close> goes on, \<open>Return (Some err)\<close> is the error the function
  returns. The verbose log line dereferences the instance id.
\<close>

definition CreateTunnel_jumphost :: "world \<Rightarrow> Manager \<Rightarrow> error option outcome \<times> Manager" where
  "CreateTunnel_jumphost c m =
     (case jumphost m of
        Some j \<Rightarrow> (Return None, m)
      | None \<Rightarrow>
          (case Manager_GetJumphost c m of
             (Inl err, tr) \<Rightarrow>
               (Return (Some (Wrap ''failed to find jumphost instance: '' err)),
                m\<lparr>effects := tr\<rparr>)
           | (Inr instance, tr) \<Rightarrow>
               (if verbose m \<and> InstanceId instance = None
                then (Panic, m\<lparr>jumphost := Some instance, effects := tr\<rparr>)
                else (Return None, m\<lparr>jumphost := Some instance, effects := tr\<rparr>))))"

text \<open>The arguments of the \<^verbatim>\<open>aws\<close> command line, lines 83 to 89.\<close>

definition start_session_args :: "string \<Rightarrow> string \<Rightarrow> string \<Rightarrow> 64 word \<Rightarrow> string list" where
  \<open>start_session_args target host remotePort localPort =
     [''ssm'', ''start-session'',
      ''--target'', target,
      ''--document-name'', ''AWS-StartPortForwardingSessionToRemoteHost'',
      ''--parameters'',
      ''{"host":["'' @ host @ ''"],"portNumber":["'' @ remotePort
        @ ''"],"localPortNumber":["'' @ fmt_d localPort @ ''"]}'']\<close>

text \<open>
  \<^verbatim>\<open>CreateTunnel\<close>, lines 73 to 112: the port scan, the command line, the start of
  the child process and its registration.
\<close>

definition CreateTunnel_launch ::
  "world \<Rightarrow> string \<Rightarrow> ServiceConfig \<Rightarrow> string \<Rightarrow> string \<Rightarrow> Manager
     \<Rightarrow> (error option outcome \<times> Manager) option" where
  "CreateTunnel_launch c serviceName serviceConfig host remotePort m =
     (case findAvailablePort c (Start (LocalPortRange serviceConfig))
             (End (LocalPortRange serviceConfig)) (effects m) of
        None \<Rightarrow> None
      | Some (Inl err, tr) \<Rightarrow>
          Some (Return (Some (Wrap (''failed to find available port for '' @ serviceName @ '': '')
                               err)),
                m\<lparr>effects := tr\<rparr>)
      | Some (Inr localPort, tr) \<Rightarrow>
          (case jumphost m of
             None \<Rightarrow> Some (Panic, m\<lparr>effects := tr\<rparr>)
           | Some j \<Rightarrow>
               (case InstanceId j of
                  None \<Rightarrow> Some (Panic, m\<lparr>effects := tr\<rparr>)
                | Some target \<Rightarrow>
                    (let argv = ''aws'' # start_session_args target host remotePort localPort
                     in case exec_Start c argv of
                          Inl err \<Rightarrow>
                            Some (Return (Some (Wrap ''failed to start AWS CLI command: '' err)),
                                  m\<lparr>effects := tr @ [Ev_Start argv]\<rparr>)
                        | Inr pid \<Rightarrow>
                            Some (Return None,
                                  m\<lparr>tunnels := Store (tunnels m) serviceName
                                                  \<lparr>Args = argv, Pid = pid\<rparr>,
                                    effects := tr @ [Ev_Start argv]\<rparr>)))))"

definition CreateTunnel ::
  "world \<Rightarrow> string \<Rightarrow> ServiceConfig \<Rightarrow> Manager \<Rightarrow> (error option outcome \<times> Manager) option" where
  "CreateTunnel c serviceName serviceConfig m =
     (case GetValue (GetParameter c) (Host serviceConfig) (env m) (effects m) of
        (Panic, tr) \<Rightarrow> Some (Panic, m\<lparr>effects := tr\<rparr>)
      | (Return (Inl err), tr) \<Rightarrow>
          Some (Return (Some (Wrap (''failed to get host for '' @ serviceName @ '': '') err)),
                m\<lparr>effects := tr\<rparr>)
      | (Return (Inr host), tr) \<Rightarrow>
          (case GetValue (GetParameter c) (RemotePort serviceConfig) (env m) tr of
             (Panic, tr') \<Rightarrow> Some (Panic, m\<lparr>effects := tr'\<rparr>)
           | (Return (Inl err), tr') \<Rightarrow>
               Some (Return (Some (Wrap (''failed to get remote port for '' @ serviceName
                                          @ '': '') err)),
                     m\<lparr>effects := tr'\<rparr>)
           | (Return (Inr remotePort), tr') \<Rightarrow>
               (case CreateTunnel_jumphost c (m\<lparr>effects := tr'\<rparr>) of
                  (Panic, m') \<Rightarrow> Some (Panic, m')
                | (Return (Some err), m') \<Rightarrow> Some (Return (Some err), m')
                | (Return None, m') \<Rightarrow>
                    CreateTunnel_launch c serviceName serviceConfig host remotePort m')))"

text \<open>
  \<^verbatim>\<open>CreateTunnels\<close>: the loop over the services with its variable
  \<^verbatim>\<open>lastError\<close>, then the function itself.
\<close>

fun CreateTunnels_loop ::
  "world \<Rightarrow> string list \<Rightarrow> error option \<Rightarrow> Manager
     \<Rightarrow> (error option outcome \<times> Manager) option" where
  "CreateTunnels_loop c [] lastError m = Some (Return lastError, m)"
| "CreateTunnels_loop c (serviceName # rest) lastError m =
     (case GetServiceConfig (config m) serviceName of
        Inl err \<Rightarrow> CreateTunnels_loop c rest (Some err) m
      | Inr serviceConfig \<Rightarrow>
          (case CreateTunnel c serviceName serviceConfig m of
             None \<Rightarrow> None
           | Some (Panic, m') \<Rightarrow> Some (Panic, m')
           | Some (Return (Some err), m') \<Rightarrow> CreateTunnels_loop c rest (Some err) m'
           | Some (Return None, m') \<Rightarrow> CreateTunnels_loop c rest lastError m'))"

definition CreateTunnels ::
  "world \<Rightarrow> string list \<Rightarrow> Manager \<Rightarrow> (error option outcome \<times> Manager) option" where
  "CreateTunnels c services m =
     (case Manager_GetJumphost c m of
        (Inl err, tr) \<Rightarrow>
          Some (Return (Some (Wrap ''failed to find jumphost instance: '' err)),
                m\<lparr>effects := tr\<rparr>)
      | (Inr instance, tr) \<Rightarrow>
          (case getInstanceName instance of
             Panic \<Rightarrow> Some (Panic, m\<lparr>jumphost := Some instance, effects := tr\<rparr>)
           | Return instanceName \<Rightarrow>
               (case InstanceId instance of
                  None \<Rightarrow> Some (Panic, m\<lparr>jumphost := Some instance, effects := tr\<rparr>)
                | Some instanceId \<Rightarrow>
                    (case CreateTunnels_loop c services None
                            (m\<lparr>jumphost := Some instance, effects := tr\<rparr>) of
                       None \<Rightarrow> None
                     | Some (Panic, m') \<Rightarrow> Some (Panic, m')
                     | Some (Return None, m') \<Rightarrow> Some (Return None, m')
                     | Some (Return (Some lastError), m') \<Rightarrow>
                         Some (Return (Some (Wrap ''one or more tunnels failed to create: ''
                                              lastError)),
                               m')))))"

text \<open>
  \<^verbatim>\<open>GetServiceDetails\<close>: the loop that adds the fetched parameters to the map, then
  the function. The map \<^verbatim>\<open>details\<close> is a partial function on strings.
\<close>

fun GetServiceDetails_add ::
  "Parameter list \<Rightarrow> (string \<rightharpoonup> string) \<Rightarrow> (string \<rightharpoonup> string)" where
  "GetServiceDetails_add [] details = details"
| "GetServiceDetails_add (param # rest) details =
     (case Name param of
        None \<Rightarrow> GetServiceDetails_add rest details
      | Some name \<Rightarrow>
          (case ParameterValue param of
             None \<Rightarrow> GetServiceDetails_add rest details
           | Some v \<Rightarrow>
               (let parts = Split name ''/'';
                    name' = (if length parts > 0 then parts ! (length parts - 1) else name)
                in GetServiceDetails_add rest (details(name' \<mapsto> v)))))"

definition GetServiceDetails ::
  "world \<Rightarrow> string \<Rightarrow> ServiceConfig \<Rightarrow> Manager
     \<Rightarrow> (error + (string \<rightharpoonup> string)) outcome \<times> Manager" where
  "GetServiceDetails c serviceName serviceConfig m =
     (case GetValue (GetParameter c) (Host serviceConfig) (env m) (effects m) of
        (Panic, tr) \<Rightarrow> (Panic, m\<lparr>effects := tr\<rparr>)
      | (Return (Inl err), tr) \<Rightarrow>
          (Return (Inl (Wrap ''failed to get host: '' err)), m\<lparr>effects := tr\<rparr>)
      | (Return (Inr host), tr) \<Rightarrow>
          (case GetValue (GetParameter c) (RemotePort serviceConfig) (env m) tr of
             (Panic, tr') \<Rightarrow> (Panic, m\<lparr>effects := tr'\<rparr>)
           | (Return (Inl err), tr') \<Rightarrow>
               (Return (Inl (Wrap ''failed to get remote port: '' err)), m\<lparr>effects := tr'\<rparr>)
           | (Return (Inr remotePort), tr') \<Rightarrow>
               (let details = [''host'' \<mapsto> host, ''remote_port'' \<mapsto> remotePort];
                    range = fmt_d (Start (LocalPortRange serviceConfig)) @ ''-''
                              @ fmt_d (End (LocalPortRange serviceConfig))
                in if length (ServiceDetails serviceConfig) > 0 then
                     (let paramPaths = map (\<lambda>path. ReplaceAll path ''${PLACEHOLDER}'' (env m))
                                         (ServiceDetails serviceConfig)
                      in case GetParametersByPath c paramPaths tr' of
                           (Inl err, tr'') \<Rightarrow> (Return (Inr details), m\<lparr>effects := tr''\<rparr>)
                         | (Inr parameters, tr'') \<Rightarrow>
                             (Return (Inr ((GetServiceDetails_add parameters details)
                                             (''local_port_range'' \<mapsto> range))),
                              m\<lparr>effects := tr''\<rparr>))
                   else (Return (Inr (details(''local_port_range'' \<mapsto> range))),
                         m\<lparr>effects := tr'\<rparr>))))"

text \<open>
  \<^verbatim>\<open>CleanupTunnels\<close>: \<^verbatim>\<open>Range\<close> calls the function literal on each entry and
  stops when it returns false.
\<close>

fun CleanupTunnels_range ::
  "world \<Rightarrow> (string \<times> Cmd) list \<Rightarrow> error option \<Rightarrow> event list \<Rightarrow> error option \<times> event list" where
  "CleanupTunnels_range c [] lastErr tr = (lastErr, tr)"
| "CleanupTunnels_range c ((key, cmd) # rest) lastErr tr =
     (case Process_Kill c (Pid cmd) of
        Some err \<Rightarrow>
          (Some (Wrap ''failed to kill tunnel process: '' err), tr @ [Ev_Kill (Pid cmd)])
      | None \<Rightarrow> CleanupTunnels_range c rest lastErr (tr @ [Ev_Kill (Pid cmd)]))"

definition CleanupTunnels :: "world \<Rightarrow> Manager \<Rightarrow> error option \<times> Manager" where
  "CleanupTunnels c m =
     (case CleanupTunnels_range c (tunnels m) None (effects m) of
        (lastErr, tr) \<Rightarrow> (lastErr, m\<lparr>effects := tr\<rparr>))"

section \<open>One service attempt, seen from outside\<close>

text \<open>
  The calls that the attempt on one service can make: a parameter fetch, a port probe
  and the start of a process. \<open>service_step m m'\<close> relates the manager before such an
  attempt to the manager after it: configuration, environment and jumphost are the
  same, the trace has grown by calls of these three kinds, and every registered name is
  still registered.
\<close>

fun service_event :: "event \<Rightarrow> bool" where
  "service_event (Ev_GetParameter name) = True"
| "service_event (Ev_Listen port) = True"
| "service_event (Ev_Start argv) = True"
| "service_event e = False"

definition service_step :: "Manager \<Rightarrow> Manager \<Rightarrow> bool" where
  "service_step m m' =
     (config m' = config m \<and> env m' = env m \<and> verbose m' = verbose m
      \<and> jumphost m' = jumphost m
      \<and> (\<exists>rest. effects m' = effects m @ rest \<and> list_all service_event rest)
      \<and> dom (map_of (tunnels m)) \<subseteq> dom (map_of (tunnels m')))"

section \<open>What the specification says\<close>

text \<open>
  The scan in the words of the specification: the ports from \<open>from\<close> to \<open>end\<close> are
  probed in ascending order and the first one that can be bound is returned, after the
  probes up to it; when there is none, every port has been probed and the result is the
  error.
\<close>

definition scan_result ::
  "world \<Rightarrow> 64 word \<Rightarrow> 64 word \<Rightarrow> int \<Rightarrow> event list \<Rightarrow> (error + 64 word) \<times> event list" where
  "scan_result c start end from tr =
     (case find (net_Listen c) [from..sint end] of
        None \<Rightarrow> (Inl (Err (''no available ports in range '' @ fmt_d start @ ''-'' @ fmt_d end)),
                 tr @ map Ev_Listen [from..sint end])
      | Some p \<Rightarrow> (Inr (word_of_int p), tr @ map Ev_Listen [from..p]))"

text \<open>
  The key of a fetched parameter in the words of the specification: the last segment of
  its name, that is what follows the last \<open>/\<close>. \<open>stores_under k q\<close> says that the
  parameter \<open>q\<close> has a name and a value and that this segment is \<open>k\<close>.
\<close>

definition last_segment :: "string \<Rightarrow> string" where
  "last_segment name = rev (takeWhile (\<lambda>x. x \<noteq> CHR ''/'') (rev name))"

definition stores_under :: "string \<Rightarrow> Parameter \<Rightarrow> bool" where
  "stores_under k q =
     (case Name q of
        None \<Rightarrow> False
      | Some n \<Rightarrow> (case ParameterValue q of None \<Rightarrow> False | Some v \<Rightarrow> last_segment n = k))"

section \<open>Example inputs\<close>

text \<open>
  A world in which the parameter store refuses every call, no instance runs, port 5001
  is the only free port, every child process starts and every kill succeeds.
\<close>

definition world_one_free :: world where
  "world_one_free =
     \<lparr>SSM_GetParameter = (\<lambda>name dec. Inl (Err ''AccessDenied'')),
      SSM_GetParameters = (\<lambda>names. Inl (Err ''AccessDenied'')),
      EC2_DescribeInstances = (\<lambda>filters. Inr []),
      rand_Intn = (\<lambda>n. 0),
      net_Listen = (\<lambda>port. port = 5001),
      exec_Start = (\<lambda>argv. Inr 4242),
      Process_Kill = (\<lambda>pid. None)\<rparr>"

text \<open>
  A service \<open>db\<close> with inline host and port and three detail paths, a service
  \<open>redis\<close> whose host is a reference into the parameter store, and a manager for the
  environment \<open>prod\<close> that knows both; the parameters that the store returns for the
  three paths, and a world whose store returns them.
\<close>

definition service_db :: ServiceConfig where
  "service_db =
     \<lparr>Host = \<lparr>Value = ''db.internal'', SSMParam = []\<rparr>,
      RemotePort = \<lparr>Value = ''3306'', SSMParam = []\<rparr>,
      LocalPortRange = \<lparr>Start = 5000, End = 5009\<rparr>,
      ServiceDetails = [''/${PLACEHOLDER}/a/user'', ''/${PLACEHOLDER}/db/host'',
                        ''/${PLACEHOLDER}/b/user'']\<rparr>"

definition service_redis :: ServiceConfig where
  "service_redis =
     \<lparr>Host = \<lparr>Value = [], SSMParam = ''/${PLACEHOLDER}/redis/host''\<rparr>,
      RemotePort = \<lparr>Value = ''6379'', SSMParam = []\<rparr>,
      LocalPortRange = \<lparr>Start = 6000, End = 6009\<rparr>,
      ServiceDetails = []\<rparr>"

definition manager_prod :: Manager where
  "manager_prod =
     \<lparr>config = \<lparr>JumphostFilter = ''bastion-${PLACEHOLDER}'',
                Services = [''db'' \<mapsto> service_db, ''redis'' \<mapsto> service_redis]\<rparr>,
      env = ''prod'', tunnels = [], verbose = False, jumphost = None, effects = []\<rparr>"

definition fetched :: "Parameter list" where
  "fetched =
     [\<lparr>Name = Some ''/prod/a/user'', ParameterValue = Some ''alice''\<rparr>,
      \<lparr>Name = Some ''/prod/db/host'', ParameterValue = Some ''replica.internal''\<rparr>,
      \<lparr>Name = Some ''/prod/b/user'', ParameterValue = Some ''bob''\<rparr>]"

definition world_details :: world where
  "world_details = world_one_free\<lparr>SSM_GetParameters := (\<lambda>names. Inr fetched)\<rparr>"

text \<open>
  A world in which the kill of process 102 fails, and a manager with three registered
  sessions, of the processes 101, 102 and 103.
\<close>

definition world_kill_fails :: world where
  "world_kill_fails =
     world_one_free\<lparr>Process_Kill :=
       (\<lambda>pid. if pid = 102 then Some (Err ''os: process already finished'') else None)\<rparr>"

definition manager_three :: Manager where
  "manager_three =
     manager_prod\<lparr>tunnels :=
       [(''db'', \<lparr>Args = ''aws'' # start_session_args ''i-0abc'' ''db.internal'' ''3306'' 5000,
                  Pid = 101\<rparr>),
        (''redis'', \<lparr>Args = ''aws'' # start_session_args ''i-0abc'' ''redis.internal'' ''6379'' 6000,
                     Pid = 102\<rparr>),
        (''api'', \<lparr>Args = ''aws'' # start_session_args ''i-0abc'' ''api.internal'' ''443'' 7000,
                   Pid = 103\<rparr>)]\<rparr>"

text \<open>
  A running jumphost, a world in which the instance query finds it, the filters of that
  query for the environment \<open>prod\<close>, and the command that the tunnel of \<open>db\<close> is
  started with in that world.
\<close>

definition bastion :: Instance where
  "bastion =
     \<lparr>InstanceId = Some ''i-0abc'', State = Some ''running'',
      Tags = [\<lparr>Key = Some ''Name'', TagValue = Some ''bastion-prod''\<rparr>]\<rparr>"

definition world_jumphost :: world where
  "world_jumphost = world_one_free\<lparr>EC2_DescribeInstances := (\<lambda>filters. Inr [[bastion]])\<rparr>"

definition bastion_filters :: "(string \<times> string list) list" where
  "bastion_filters = [(''tag:Name'', [''bastion-prod'']), (''instance-state-name'', [''running''])]"

definition db_cmd :: Cmd where
  "db_cmd = \<lparr>Args = ''aws'' # start_session_args ''i-0abc'' ''db.internal'' ''3306'' 5001,
             Pid = 4242\<rparr>"

section \<open>The value resolver\<close>

text \<open>
  How \<open>ReplaceAll\<close> treats the occurrences of a token: a string without the token is
  left as it is, and up to the first occurrence the string is copied, the occurrence is
  replaced and the rest is treated in the same way.
\<close>

lemma ReplaceAll_no_occurrence:
  "old \<noteq> [] \<Longrightarrow> (\<And>a b. s \<noteq> a @ old @ b) \<Longrightarrow> ReplaceAll s old new = s"
proof (induction s)
  case Nil
  then show ?case by (simp add: ReplaceAll.simps)
next
  case (Cons c cs)
  have "take (length old) (c # cs) \<noteq> old"
  proof
    assume "take (length old) (c # cs) = old"
    then have "c # cs = [] @ old @ drop (length old) (c # cs)"
      by (metis append_Nil append_take_drop_id)
    then show False using Cons.prems(2) by blast
  qed
  moreover have "ReplaceAll cs old new = cs"
  proof (rule Cons.IH [OF Cons.prems(1)])
    fix a b
    show "cs \<noteq> a @ old @ b" using Cons.prems(2) [of "c # a" b] by simp
  qed
  ultimately show ?case using Cons.prems(1) by (simp add: ReplaceAll.simps [of "c # cs"])
qed

lemma ReplaceAll_first_occurrence:
  "old \<noteq> [] \<Longrightarrow> (\<And>a' b'. a @ butlast old \<noteq> a' @ old @ b')
     \<Longrightarrow> ReplaceAll (a @ old @ b) old new = a @ new @ ReplaceAll b old new"
proof (induction a)
  case Nil
  then show ?case by (simp add: ReplaceAll.simps [of "old @ b"])
next
  case (Cons c cs)
  have "take (length old) (c # cs @ old @ b) \<noteq> old"
  proof
    assume eq: "take (length old) (c # cs @ old @ b) = old"
    have len: "length old \<le> length ((c # cs) @ butlast old)" by simp
    have "take (length old) ((c # cs) @ butlast old) = take (length old) (c # cs @ old @ b)"
    proof -
      have "c # cs @ old @ b = ((c # cs) @ butlast old) @ (last old # b)"
        using Cons.prems(1) by (simp add: append_butlast_last_id [symmetric] del: append_butlast_last_id)
      then show ?thesis using len by (metis take_append diff_is_0_eq' take0 append_Nil2)
    qed
    then have "(c # cs) @ butlast old = [] @ old @ drop (length old) ((c # cs) @ butlast old)"
      using eq by (metis append_Nil append_take_drop_id)
    then show False using Cons.prems(2) by blast
  qed
  moreover have "ReplaceAll (cs @ old @ b) old new = cs @ new @ ReplaceAll b old new"
  proof (rule Cons.IH [OF Cons.prems(1)])
    fix a' b'
    show "cs @ butlast old \<noteq> a' @ old @ b'" using Cons.prems(2) [of "c # a'" b'] by simp
  qed
  ultimately show ?case
    using Cons.prems(1) by (simp add: ReplaceAll.simps [of "c # cs @ old @ b"])
qed

lemma ReplaceAll_example:
  "ReplaceAll ''/${PLACEHOLDER}/db/${PLACEHOLDER}'' ''${PLACEHOLDER}'' ''prod'' = ''/prod/db/prod''"
  by code_simp

text \<open>
  C5. A value with both the inline literal and the parameter reference set is refused
  with the error of the conflicting sources, and a value with neither is refused with
  the error of the missing source; in both cases the trace is unchanged: the parameter
  store is not called.
\<close>

theorem GetValue_both_or_neither:
  "(SSMParam cv \<noteq> [] \<and> Value cv \<noteq> [] \<longrightarrow>
      GetValue ssmClient cv placeholder tr
        = (Return (Inl (Err ''cannot specify both value and SSM parameter'')), tr))
   \<and> (SSMParam cv = [] \<and> Value cv = [] \<longrightarrow>
      GetValue ssmClient cv placeholder tr
        = (Return (Inl (Err ''no value or SSM parameter specified'')), tr))"
  by (simp add: GetValue_def)

theorem GetValue_both_or_neither_witness:
  "GetValue (\<lambda>name. Return (Inr ''10.0.0.7''))
       \<lparr>Value = ''db.internal'', SSMParam = ''/${PLACEHOLDER}/db/host''\<rparr> ''prod'' []
     = (Return (Inl (Err ''cannot specify both value and SSM parameter'')), [])
   \<and> GetValue (\<lambda>name. Return (Inr ''10.0.0.7'')) \<lparr>Value = [], SSMParam = []\<rparr> ''prod'' []
     = (Return (Inl (Err ''no value or SSM parameter specified'')), [])"
  using
    GetValue_both_or_neither
      [of "\<lparr>Value = ''db.internal'', SSMParam = ''/${PLACEHOLDER}/db/host''\<rparr>"
          "\<lambda>name. Return (Inr ''10.0.0.7'')" "''prod''" "[]"]
    GetValue_both_or_neither
      [of "\<lparr>Value = [], SSMParam = []\<rparr>" "\<lambda>name. Return (Inr ''10.0.0.7'')" "''prod''" "[]"]
  by simp

text \<open>
  C6. A value that holds only an inline literal \<open>L\<close> resolves to \<open>L\<close>, whatever the
  environment string and the parameter store are, and the trace is unchanged: the
  store is not called.
\<close>

theorem GetValue_literal:
  assumes "Value cv = L" and "L \<noteq> []" and "SSMParam cv = []"
  shows "GetValue ssmClient cv placeholder tr = (Return (Inr L), tr)"
  using assms by (simp add: GetValue_def)

theorem GetValue_literal_witness:
  "GetValue (\<lambda>name. Panic) \<lparr>Value = ''3306'', SSMParam = []\<rparr> ''prod'' []
     = (Return (Inr ''3306''), [])"
  using GetValue_literal
    [of "\<lparr>Value = ''3306'', SSMParam = []\<rparr>" "''3306''" "\<lambda>name. Panic" "''prod''" "[]"]
  by simp

text \<open>
  C7. A value that holds only a reference path \<open>R\<close> is resolved with exactly one call
  of the parameter store, on \<open>R\<close> with the placeholder token replaced by the
  environment string \<open>E\<close>, and the result of that call, a value, an error or a panic, is
  the result of the resolution.
\<close>

theorem GetValue_reference:
  assumes "SSMParam cv = R" and "R \<noteq> []" and "Value cv = []"
  shows "GetValue ssmClient cv E tr
           = (ssmClient (ReplaceAll R ''${PLACEHOLDER}'' E),
              tr @ [Ev_GetParameter (ReplaceAll R ''${PLACEHOLDER}'' E)])"
  using assms by (simp add: GetValue_def Let_def)

theorem GetValue_reference_witness:
  "GetValue (\<lambda>name. if name = ''/prod/db/prod'' then Return (Inr ''10.0.0.7'')
                     else Return (Inl (Err ''ParameterNotFound'')))
       \<lparr>Value = [], SSMParam = ''/${PLACEHOLDER}/db/${PLACEHOLDER}''\<rparr> ''prod'' []
     = (Return (Inr ''10.0.0.7''), [Ev_GetParameter ''/prod/db/prod''])"
  using GetValue_reference
    [of "\<lparr>Value = [], SSMParam = ''/${PLACEHOLDER}/db/${PLACEHOLDER}''\<rparr>"
        "''/${PLACEHOLDER}/db/${PLACEHOLDER}''"
        "\<lambda>name. if name = ''/prod/db/prod'' then Return (Inr ''10.0.0.7'')
                 else Return (Inl (Err ''ParameterNotFound''))"
        "''prod''" "[]"]
  by (simp add: ReplaceAll_example)

text \<open>
  C9. A value whose inline literal and reference path are both the empty string is
  refused with the error of the missing source, whatever the store and the environment
  are: it never resolves to a value, and so never to the empty literal.
\<close>

theorem GetValue_empty_literal:
  assumes "Value cv = []" and "SSMParam cv = []"
  shows "GetValue ssmClient cv placeholder tr
           = (Return (Inl (Err ''no value or SSM parameter specified'')), tr)
         \<and> (\<forall>v tr'. GetValue ssmClient cv placeholder tr \<noteq> (Return (Inr v), tr'))"
  using assms by (simp add: GetValue_def)

theorem GetValue_empty_literal_witness:
  "GetValue (\<lambda>name. Return (Inr [])) \<lparr>Value = [], SSMParam = []\<rparr> ''dev'' []
     = (Return (Inl (Err ''no value or SSM parameter specified'')), [])
   \<and> GetValue (\<lambda>name. Return (Inr [])) \<lparr>Value = [], SSMParam = []\<rparr> ''dev'' []
     \<noteq> (Return (Inr []), [])"
  using GetValue_empty_literal
    [of "\<lparr>Value = [], SSMParam = []\<rparr>" "\<lambda>name. Return (Inr [])" "''dev''" "[]"]
  by simp

section \<open>The port allocator\<close>

text \<open>The increment of a 64-bit integer below the greatest one does not wrap around.\<close>

lemma sint_succ: "sint (x::64 word) < 2^63 - 1 \<Longrightarrow> sint (x + 1) = sint x + 1"
proof -
  assume a: "sint x < 2^63 - 1"
  have lo: "- (2^63) \<le> sint x" using sint_ge [of x] by simp
  have "sint (x + 1) = signed_take_bit 63 (sint x + sint (1::64 word))"
    by (simp add: sint_word_ariths)
  also have "\<dots> = signed_take_bit 63 (sint x + 1)" by simp
  also have "\<dots> = sint x + 1"
    by (rule signed_take_bit_int_eq_self) (use a lo in auto)
  finally show ?thesis .
qed

text \<open>
  The loop returns, and returns what the specification says of the scan, when \<open>end\<close>
  is not the greatest 64-bit integer.
\<close>

lemma findAvailablePort_loop_find:
  assumes "sint end < 2^63 - 1"
  shows "findAvailablePort_loop c start end port tr = Some (scan_result c start end (sint port) tr)"
proof (induction "nat (sint end + 1 - sint port)" arbitrary: port tr)
  case 0
  then have "\<not> port \<le>s end" by (simp add: word_sle_eq)
  moreover from 0 have "[sint port..sint end] = []" by simp
  ultimately show ?case
    by (subst findAvailablePort_loop.simps) (simp add: scan_result_def)
next
  case (Suc n)
  then have le: "sint port \<le> sint end" by simp
  then have sle: "port \<le>s end" by (simp add: word_sle_eq)
  have nxt: "sint (port + 1) = sint port + 1" using le assms by (intro sint_succ) simp
  have up: "[sint port..sint end] = sint port # [sint port + 1..sint end]"
    using le by (simp add: upto_rec1)
  show ?case
  proof (cases "net_Listen c (sint port)")
    case True
    then show ?thesis using sle up
      by (subst findAvailablePort_loop.simps) (simp add: scan_result_def isPortAvailable_def)
  next
    case False
    have n: "n = nat (sint end + 1 - sint (port + 1))" using Suc(2) nxt by simp
    have step: "findAvailablePort_loop c start end port tr
         = findAvailablePort_loop c start end (port + 1) (tr @ [Ev_Listen (sint port)])"
      using False sle by (subst findAvailablePort_loop.simps) (simp add: isPortAvailable_def)
    have "scan_result c start end (sint port + 1) (tr @ [Ev_Listen (sint port)])
            = scan_result c start end (sint port) tr"
    proof (cases "find (net_Listen c) [sint port + 1..sint end]")
      case None
      then show ?thesis using False up by (simp add: scan_result_def)
    next
      case (Some p)
      then have "sint port + 1 \<le> p" by (auto simp: find_Some_iff)
      then have "[sint port..p] = sint port # [sint port + 1..p]" by (simp add: upto_rec1)
      then show ?thesis using Some False up by (simp add: scan_result_def)
    qed
    then show ?thesis using Suc(1) [OF n] step nxt by simp
  qed
qed

lemma find_upto_first:
  "lo \<le> p \<Longrightarrow> p \<le> hi \<Longrightarrow> A p \<Longrightarrow> (\<And>q. lo \<le> q \<Longrightarrow> q < p \<Longrightarrow> \<not> A q)
     \<Longrightarrow> find A [lo..hi] = Some p"
proof (induction "nat (p - lo)" arbitrary: lo)
  case 0
  then have "lo = p" by simp
  with 0 show ?case by (simp add: upto_rec1)
next
  case (Suc n)
  then have lt: "lo < p" by simp
  then have "\<not> A lo" using Suc.prems by simp
  moreover have "find A [lo + 1..hi] = Some p"
    using Suc.hyps(2) Suc.prems lt by (intro Suc.hyps(1)) auto
  moreover have "[lo..hi] = lo # [lo + 1..hi]" using lt Suc.prems by (simp add: upto_rec1)
  ultimately show ?case by simp
qed

text \<open>
  C8. For a range whose end is below the greatest 64-bit integer (every port number is),
  \<open>findAvailablePort\<close> returns: it probes the ports from \<open>start\<close> upwards and returns
  the first port \<open>P\<close> of the range that can be bound, having probed exactly the ports
  from \<open>start\<close> to \<open>P\<close> in ascending order; when no port of the range can be bound
  it has probed all of them and fails with the error of no available port; and when
  \<open>P\<close> is the only port of the range that can be bound, it returns \<open>P\<close>.
\<close>

theorem findAvailablePort_scan:
  assumes "sint end < 2^63 - 1"
  shows "(sint start \<le> sint P \<and> sint P \<le> sint end \<and> net_Listen c (sint P)
            \<and> (\<forall>p. sint start \<le> p \<and> p < sint P \<longrightarrow> \<not> net_Listen c p)
          \<longrightarrow> findAvailablePort c start end tr
                = Some (Inr P, tr @ map Ev_Listen [sint start..sint P]))
       \<and> ((\<forall>p. sint start \<le> p \<and> p \<le> sint end \<longrightarrow> \<not> net_Listen c p)
          \<longrightarrow> findAvailablePort c start end tr
                = Some (Inl (Err (''no available ports in range '' @ fmt_d start @ ''-''
                                   @ fmt_d end)),
                        tr @ map Ev_Listen [sint start..sint end]))
       \<and> (sint start \<le> sint P \<and> sint P \<le> sint end \<and> net_Listen c (sint P)
            \<and> (\<forall>p. sint start \<le> p \<and> p \<le> sint end \<and> p \<noteq> sint P \<longrightarrow> \<not> net_Listen c p)
          \<longrightarrow> findAvailablePort c start end tr
                = Some (Inr P, tr @ map Ev_Listen [sint start..sint P]))"
proof -
  have eq: "findAvailablePort c start end tr = Some (scan_result c start end (sint start) tr)"
    unfolding findAvailablePort_def by (rule findAvailablePort_loop_find [OF assms])
  have first: "findAvailablePort c start end tr
                 = Some (Inr P, tr @ map Ev_Listen [sint start..sint P])"
    if "sint start \<le> sint P" "sint P \<le> sint end" "net_Listen c (sint P)"
       "\<And>p. sint start \<le> p \<Longrightarrow> p < sint P \<Longrightarrow> \<not> net_Listen c p"
  proof -
    have "find (net_Listen c) [sint start..sint end] = Some (sint P)"
      using that by (intro find_upto_first) auto
    then show ?thesis by (simp add: eq scan_result_def)
  qed
  have none: "findAvailablePort c start end tr
                = Some (Inl (Err (''no available ports in range '' @ fmt_d start @ ''-''
                                   @ fmt_d end)),
                        tr @ map Ev_Listen [sint start..sint end])"
    if "\<And>p. sint start \<le> p \<Longrightarrow> p \<le> sint end \<Longrightarrow> \<not> net_Listen c p"
  proof -
    have "find (net_Listen c) [sint start..sint end] = None"
      using that by (simp add: find_None_iff)
    then show ?thesis by (simp add: eq scan_result_def)
  qed
  show ?thesis
  proof (intro conjI impI)
    assume "sint start \<le> sint P \<and> sint P \<le> sint end \<and> net_Listen c (sint P)
            \<and> (\<forall>p. sint start \<le> p \<and> p < sint P \<longrightarrow> \<not> net_Listen c p)"
    then show "findAvailablePort c start end tr
                = Some (Inr P, tr @ map Ev_Listen [sint start..sint P])"
      by (intro first) auto
  next
    assume "\<forall>p. sint start \<le> p \<and> p \<le> sint end \<longrightarrow> \<not> net_Listen c p"
    then show "findAvailablePort c start end tr
                = Some (Inl (Err (''no available ports in range '' @ fmt_d start @ ''-''
                                   @ fmt_d end)),
                        tr @ map Ev_Listen [sint start..sint end])"
      by (intro none) auto
  next
    assume "sint start \<le> sint P \<and> sint P \<le> sint end \<and> net_Listen c (sint P)
            \<and> (\<forall>p. sint start \<le> p \<and> p \<le> sint end \<and> p \<noteq> sint P \<longrightarrow> \<not> net_Listen c p)"
    then show "findAvailablePort c start end tr
                = Some (Inr P, tr @ map Ev_Listen [sint start..sint P])"
      by (intro first) auto
  qed
qed

theorem findAvailablePort_scan_witness:
  "sint (5002 :: 64 word) < 2^63 - 1
   \<and> findAvailablePort world_one_free 5000 5002 []
       = Some (Inr 5001, [Ev_Listen 5000, Ev_Listen 5001])
   \<and> findAvailablePort (world_one_free\<lparr>net_Listen := (\<lambda>port. False)\<rparr>) 5000 5002 []
       = Some (Inl (Err ''no available ports in range 5000-5002''),
               [Ev_Listen 5000, Ev_Listen 5001, Ev_Listen 5002])"
  using findAvailablePort_scan [of 5002 5000 5001 world_one_free "[]"]
    findAvailablePort_scan [of 5002 5000 5001 "world_one_free\<lparr>net_Listen := (\<lambda>port. False)\<rparr>" "[]"]
  by (simp add: world_one_free_def fmt_d_def fmt_int_def digits.simps upto_rec1)

text \<open>
  The bound on \<open>end\<close> is needed: when \<open>end\<close> is the greatest 64-bit integer the test
  \<^verbatim>\<open>port <= end\<close> always holds, so the loop can only leave with a port that can be
  bound, and where none can it does not return. No port number is that large.
\<close>

lemma sle_greatest: "sint fin = 2^63 - 1 \<Longrightarrow> (port :: 64 word) \<le>s fin"
  using sint_lt [of port] by (simp add: word_sle_eq)

lemma findAvailablePort_loop_greatest:
  assumes "findAvailablePort_loop c start end port tr = Some y"
  shows "sint end = 2^63 - 1 \<longrightarrow> (\<exists>p. fst y = Inr p \<and> net_Listen c (sint p))"
proof (rule findAvailablePort_loop.raw_induct [OF _ assms], goal_cases)
  case (1 loop c start fin port tr y)
  show ?case
  proof
    assume top: "sint fin = 2^63 - 1"
    then have le: "port \<le>s fin" by (rule sle_greatest)
    show "\<exists>p. fst y = Inr p \<and> net_Listen c (sint p)"
    proof (cases "net_Listen c (sint port)")
      case True
      with 1(2) le show ?thesis by (auto simp: isPortAvailable_def)
    next
      case False
      with 1(2) le have "loop c start fin (port + 1) (tr @ [Ev_Listen (sint port)]) = Some y"
        by (simp add: isPortAvailable_def)
      from 1(1) [OF this] top show ?thesis by simp
    qed
  qed
qed

lemma findAvailablePort_greatest_end:
  "findAvailablePort (world_one_free\<lparr>net_Listen := (\<lambda>port. False)\<rparr>) 5000 9223372036854775807 []
     = None"
proof (cases "findAvailablePort (world_one_free\<lparr>net_Listen := (\<lambda>port. False)\<rparr>) 5000
                9223372036854775807 []")
  case None
  then show ?thesis .
next
  case (Some y)
  from findAvailablePort_loop_greatest [OF Some [unfolded findAvailablePort_def]]
  show ?thesis by simp
qed

section \<open>The service detail query\<close>

text \<open>
  The last piece that \<open>Split\<close> returns for the separator \<open>/\<close> is the last segment
  of the name.
\<close>

lemma takeWhile_rev_absent:
  "c \<notin> set xs \<Longrightarrow> takeWhile (\<lambda>x. x \<noteq> c) (rev xs) = rev xs"
  by (rule takeWhile_eq_all_conv [THEN iffD2]) auto

lemma takeWhile_snoc_stop:
  "takeWhile (\<lambda>x. x \<noteq> c) (ys @ [c]) = takeWhile (\<lambda>x. x \<noteq> c) ys"
  by (induction ys) simp_all

lemma Split_from_not_Nil: "Split_from cur s sep \<noteq> []"
  by (induction cur s sep rule: Split_from.induct) (subst Split_from.simps, simp)

lemma last_Split_from:
  "last (Split_from cur s [c])
     = (if c \<in> set s then rev (takeWhile (\<lambda>x. x \<noteq> c) (rev s)) else cur @ s)"
proof (induction cur s "[c]" rule: Split_from.induct)
  case (1 cur s)
  show ?case
  proof (cases s)
    case Nil
    then show ?thesis by (subst Split_from.simps) simp
  next
    case (Cons x xs)
    show ?thesis
    proof (cases "x = c")
      case True
      have "last (Split_from cur s [c]) = last (Split_from [] xs [c])"
        using Cons True by (subst Split_from.simps) (simp add: Split_from_not_Nil)
      also have "\<dots> = (if c \<in> set xs then rev (takeWhile (\<lambda>x. x \<noteq> c) (rev xs)) else [] @ xs)"
        using "1.hyps"(1) Cons True by simp
      also have "\<dots> = rev (takeWhile (\<lambda>x. x \<noteq> c) (rev xs @ [c]))"
        by (simp add: takeWhile_snoc_stop takeWhile_rev_absent)
      finally show ?thesis using Cons True by simp
    next
      case False
      have "last (Split_from cur s [c]) = last (Split_from (cur @ [x]) xs [c])"
        using Cons False by (subst Split_from.simps) simp
      also have "\<dots> = (if c \<in> set xs then rev (takeWhile (\<lambda>x. x \<noteq> c) (rev xs))
                        else (cur @ [x]) @ xs)"
        using "1.hyps"(2) Cons False by simp
      also have "\<dots> = (if c \<in> set s then rev (takeWhile (\<lambda>x. x \<noteq> c) (rev s)) else cur @ s)"
        using Cons False by auto
      finally show ?thesis .
    qed
  qed
qed

lemma last_Split: "last (Split name ''/'') = last_segment name"
  by (simp add: Split_def last_Split_from last_segment_def takeWhile_rev_absent)

lemma Split_not_Nil: "Split name ''/'' \<noteq> []"
  by (simp add: Split_def Split_from_not_Nil)

lemma nth_Split_last: "Split name ''/'' ! (length (Split name ''/'') - Suc 0) = last_segment name"
  using last_Split [of name] Split_not_Nil [of name] by (simp add: last_conv_nth)

lemma GetServiceDetails_add_Cons:
  "GetServiceDetails_add (param # rest) details =
     (case Name param of
        None \<Rightarrow> GetServiceDetails_add rest details
      | Some name \<Rightarrow>
          (case ParameterValue param of
             None \<Rightarrow> GetServiceDetails_add rest details
           | Some v \<Rightarrow> GetServiceDetails_add rest (details(last_segment name \<mapsto> v))))"
  by (simp add: Let_def Split_not_Nil nth_Split_last split: option.splits)

lemma GetServiceDetails_add_append:
  "GetServiceDetails_add (xs @ ys) details
     = GetServiceDetails_add ys (GetServiceDetails_add xs details)"
  by (induction xs arbitrary: details)
     (simp_all add: GetServiceDetails_add_Cons split: option.splits
        del: GetServiceDetails_add.simps(2))

lemma GetServiceDetails_add_untouched:
  "list_all (\<lambda>q. \<not> stores_under k q) ys \<Longrightarrow> GetServiceDetails_add ys details k = details k"
  by (induction ys arbitrary: details)
     (auto simp: GetServiceDetails_add_Cons stores_under_def split: option.splits
        simp del: GetServiceDetails_add.simps(2))

lemma GetServiceDetails_add_last_wins:
  assumes "Name param = Some name" and "ParameterValue param = Some v"
    and "list_all (\<lambda>q. \<not> stores_under (last_segment name) q) after"
  shows "GetServiceDetails_add (before @ param # after) details (last_segment name) = Some v"
  using assms
  by (simp add: GetServiceDetails_add_append GetServiceDetails_add_Cons
        GetServiceDetails_add_untouched del: GetServiceDetails_add.simps(2))

text \<open>
  C10. When host and remote port resolve and the fetch of the detail parameters
  succeeds, a fetched parameter with a name and a value is stored, when the loop comes
  to it, under the last piece of \<open>Split\<close> on \<open>/\<close>, which is the last segment of its
  name; and it is found there in the returned map, provided no parameter fetched after
  it is stored under the same segment and the segment is not \<open>local_port_range\<close>
  (the key written last, at line 214). So of two parameters with the same last segment the later
  one wins, and a parameter whose last segment is \<open>host\<close> or \<open>remote_port\<close> replaces
  the resolved host or remote port.
\<close>

theorem GetServiceDetails_keys:
  assumes host: "GetValue (GetParameter c) (Host sc) (env m) (effects m) = (Return (Inr host), tr1)"
    and port: "GetValue (GetParameter c) (RemotePort sc) (env m) tr1
                 = (Return (Inr remotePort), tr2)"
    and paths: "ServiceDetails sc \<noteq> []"
    and fetch: "GetParametersByPath c
                  (map (\<lambda>path. ReplaceAll path ''${PLACEHOLDER}'' (env m)) (ServiceDetails sc)) tr2
                  = (Inr (before @ param # after), tr3)"
    and name: "Name param = Some name"
    and val: "ParameterValue param = Some v"
    and later: "list_all (\<lambda>q. \<not> stores_under (last_segment name) q) after"
    and key: "last_segment name \<noteq> ''local_port_range''"
  shows "(\<forall>details. GetServiceDetails_add (before @ [param]) details (last (Split name ''/''))
                      = Some v)
         \<and> last (Split name ''/'') = last_segment name
         \<and> (\<exists>details. GetServiceDetails c serviceName sc m
                      = (Return (Inr details), m\<lparr>effects := tr3\<rparr>)
                   \<and> details (last (Split name ''/'')) = Some v)"
  using host port paths fetch key
    GetServiceDetails_add_last_wins
      [OF name val later, of before "[''host'' \<mapsto> host, ''remote_port'' \<mapsto> remotePort]"]
    GetServiceDetails_add_last_wins [OF name val, of "[]" before]
  by (simp add: GetServiceDetails_def Let_def last_Split)

lemma paths_prod:
  "map (\<lambda>path. ReplaceAll path ''${PLACEHOLDER}'' ''prod'') (ServiceDetails service_db)
     = [''/prod/a/user'', ''/prod/db/host'', ''/prod/b/user'']"
  unfolding service_db_def by code_simp

lemma fetch_prod:
  "GetParametersByPath world_details [''/prod/a/user'', ''/prod/db/host'', ''/prod/b/user''] []
     = (Inr fetched, [Ev_GetParameters [''/prod/a/user'', ''/prod/db/host'', ''/prod/b/user'']])"
  by (simp add: GetParametersByPath_def GetParametersByPath_loop.simps world_details_def
        world_one_free_def fetched_def Let_def)

lemma seg1: "last_segment ''/prod/b/user'' = ''user''" by (simp add: last_segment_def)
lemma seg2: "last_segment ''/prod/db/host'' = ''host''" by (simp add: last_segment_def)

lemma manager_prod_fields:
  "env manager_prod = ''prod''" "effects manager_prod = []" "tunnels manager_prod = []"
  "verbose manager_prod = False" "jumphost manager_prod = None"
  "Services (config manager_prod) ''db'' = Some service_db"
  "Services (config manager_prod) ''redis'' = Some service_redis"
  by (simp_all add: manager_prod_def)

lemma resolve_db:
  "GetValue (GetParameter c) (Host service_db) (env manager_prod) (effects manager_prod)
     = (Return (Inr ''db.internal''), [])"
  "GetValue (GetParameter c) (RemotePort service_db) (env manager_prod) []
     = (Return (Inr ''3306''), [])"
  by (simp_all add: GetValue_def service_db_def manager_prod_fields)

theorem GetServiceDetails_keys_witness:
  "\<exists>details. GetServiceDetails world_details ''db'' service_db manager_prod
                  = (Return (Inr details),
                     manager_prod\<lparr>effects := [Ev_GetParameters [''/prod/a/user'', ''/prod/db/host'',
                                                                   ''/prod/b/user'']]\<rparr>)
               \<and> details ''user'' = Some ''bob''
               \<and> details ''host'' = Some ''replica.internal''"
proof -
  let ?tr = "[Ev_GetParameters [''/prod/a/user'', ''/prod/db/host'', ''/prod/b/user'']]"
  have paths: "ServiceDetails service_db \<noteq> []" by (simp add: service_db_def)
  have fetch: "GetParametersByPath world_details
                 (map (\<lambda>path. ReplaceAll path ''${PLACEHOLDER}'' (env manager_prod))
                    (ServiceDetails service_db)) []
               = (Inr (before @ param # after), ?tr)"
    if "fetched = before @ param # after" for before param after
    using that paths_prod fetch_prod by (simp add: manager_prod_fields)
  have user: "\<exists>details. GetServiceDetails world_details ''db'' service_db manager_prod
                  = (Return (Inr details), manager_prod\<lparr>effects := ?tr\<rparr>)
               \<and> details (last (Split ''/prod/b/user'' ''/'')) = Some ''bob''"
    by (rule GetServiceDetails_keys
          [where before = "[\<lparr>Name = Some ''/prod/a/user'', ParameterValue = Some ''alice''\<rparr>,
                            \<lparr>Name = Some ''/prod/db/host'',
                              ParameterValue = Some ''replica.internal''\<rparr>]"
             and param = "\<lparr>Name = Some ''/prod/b/user'', ParameterValue = Some ''bob''\<rparr>"
             and after = "[]" and name = "''/prod/b/user''" and v = "''bob''",
           OF resolve_db(1) resolve_db(2) paths fetch, THEN conjunct2, THEN conjunct2])
       (simp_all add: fetched_def seg1)
  have host: "\<exists>details. GetServiceDetails world_details ''db'' service_db manager_prod
                  = (Return (Inr details), manager_prod\<lparr>effects := ?tr\<rparr>)
               \<and> details (last (Split ''/prod/db/host'' ''/'')) = Some ''replica.internal''"
    by (rule GetServiceDetails_keys
          [where before = "[\<lparr>Name = Some ''/prod/a/user'', ParameterValue = Some ''alice''\<rparr>]"
             and param = "\<lparr>Name = Some ''/prod/db/host'',
                            ParameterValue = Some ''replica.internal''\<rparr>"
             and after = "[\<lparr>Name = Some ''/prod/b/user'', ParameterValue = Some ''bob''\<rparr>]"
             and name = "''/prod/db/host''" and v = "''replica.internal''",
           OF resolve_db(1) resolve_db(2) paths fetch, THEN conjunct2, THEN conjunct2])
       (simp_all add: fetched_def seg1 seg2 stores_under_def)
  from user host show ?thesis by (auto simp: last_Split seg1 seg2)
qed

text \<open>
  What the code does when the fetch of the detail parameters fails: it returns the map
  with the host and the remote port only, and no error.
\<close>

lemma GetServiceDetails_after_failed_fetch:
  assumes "GetValue (GetParameter c) (Host sc) (env m) (effects m) = (Return (Inr host), tr1)"
    and "GetValue (GetParameter c) (RemotePort sc) (env m) tr1 = (Return (Inr remotePort), tr2)"
    and "ServiceDetails sc \<noteq> []"
    and "GetParametersByPath c
           (map (\<lambda>path. ReplaceAll path ''${PLACEHOLDER}'' (env m)) (ServiceDetails sc)) tr2
           = (Inl err, tr3)"
  shows "GetServiceDetails c serviceName sc m
           = (Return (Inr [''host'' \<mapsto> host, ''remote_port'' \<mapsto> remotePort]),
              m\<lparr>effects := tr3\<rparr>)"
  using assms by (simp add: GetServiceDetails_def Let_def)

text \<open>
  C2. The claim is that the map returned after a failed fetch still has the three keys
  \<open>host\<close>, \<open>remote_port\<close> and \<open>local_port_range\<close>. For the service \<open>db\<close> with three
  detail paths and a store that refuses the batch, the code returns no error and a map
  with \<open>host\<close> and \<open>remote_port\<close> in which \<open>local_port_range\<close> is missing: the
  return at line 195 comes before the port range is added at line 214.
\<close>

theorem GetServiceDetails_fetch_error_drops_range:
  "GetServiceDetails world_one_free ''db'' service_db manager_prod
     = (Return (Inr [''host'' \<mapsto> ''db.internal'', ''remote_port'' \<mapsto> ''3306'']),
        manager_prod\<lparr>effects := [Ev_GetParameters [''/prod/a/user'', ''/prod/db/host'',
                                                      ''/prod/b/user'']]\<rparr>)
   \<and> [''host'' \<mapsto> ''db.internal'', ''remote_port'' \<mapsto> ''3306''] ''local_port_range'' = None"
proof -
  have "GetParametersByPath world_one_free
          [''/prod/a/user'', ''/prod/db/host'', ''/prod/b/user''] []
        = (Inl (Wrap ''failed to get parameters: '' (Err ''AccessDenied'')),
           [Ev_GetParameters [''/prod/a/user'', ''/prod/db/host'', ''/prod/b/user'']])"
    by (simp add: GetParametersByPath_def GetParametersByPath_loop.simps world_one_free_def
          Let_def)
  moreover have "ServiceDetails service_db \<noteq> []" by (simp add: service_db_def)
  ultimately show ?thesis
    using paths_prod resolve_db [of world_one_free]
    by (simp add: GetServiceDetails_def Let_def manager_prod_fields)
qed

section \<open>Cleanup\<close>

text \<open>
  What \<open>Range\<close> does with the function literal of \<open>CleanupTunnels\<close>: when every
  kill succeeds every process is killed, and at the first kill that fails the iteration
  stops, so that the entries after it are not visited.
\<close>

lemma CleanupTunnels_range_all_killed:
  "list_all (\<lambda>entry. Process_Kill c (Pid (snd entry)) = None) entries
     \<Longrightarrow> CleanupTunnels_range c entries lastErr tr
           = (lastErr, tr @ map (\<lambda>entry. Ev_Kill (Pid (snd entry))) entries)"
  by (induction entries arbitrary: tr) auto

lemma CleanupTunnels_range_stops:
  assumes "list_all (\<lambda>entry. Process_Kill c (Pid (snd entry)) = None) before"
    and "Process_Kill c (Pid cmd) = Some err"
  shows "CleanupTunnels_range c (before @ (key, cmd) # after) lastErr tr
           = (Some (Wrap ''failed to kill tunnel process: '' err),
              tr @ map (\<lambda>entry. Ev_Kill (Pid (snd entry))) before @ [Ev_Kill (Pid cmd)])"
  using assms by (induction before arbitrary: tr) auto

text \<open>
  C1. The claim is that cleanup attempts to terminate every registered session whatever
  the earlier failures. With three sessions visited in the order 101, 102, 103, where the
  kill of 102 fails, the code kills 101, tries 102 and returns its error: the process
  103 is never killed.
\<close>

theorem CleanupTunnels_stops_at_first_failure:
  "CleanupTunnels world_kill_fails manager_three
     = (Some (Wrap ''failed to kill tunnel process: '' (Err ''os: process already finished'')),
        manager_three\<lparr>effects := [Ev_Kill 101, Ev_Kill 102]\<rparr>)
   \<and> Ev_Kill 103 \<notin> set (effects (snd (CleanupTunnels world_kill_fails manager_three)))"
  by (simp add: CleanupTunnels_def world_kill_fails_def manager_three_def manager_prod_fields)

section \<open>The tunnel orchestrator\<close>

text \<open>
  Whenever the port scan returns, it has only probed ports. (This needs no bound on the
  range: it is proved by induction on the loop.)
\<close>

lemma findAvailablePort_loop_trace:
  assumes "findAvailablePort_loop c start end port tr = Some y"
  shows "\<exists>rest. snd y = tr @ rest \<and> list_all service_event rest"
proof (rule findAvailablePort_loop.raw_induct [OF _ assms], goal_cases)
  case (1 loop c start fin port tr y)
  show ?case
  proof (cases "port \<le>s fin")
    case False
    with 1(2) show ?thesis by auto
  next
    case True
    show ?thesis
    proof (cases "net_Listen c (sint port)")
      case True
      with 1(2) \<open>port \<le>s fin\<close> show ?thesis by (auto simp: isPortAvailable_def)
    next
      case False
      with 1(2) \<open>port \<le>s fin\<close>
      have "loop c start fin (port + 1) (tr @ [Ev_Listen (sint port)]) = Some y"
        by (simp add: isPortAvailable_def)
      from 1(1) [OF this] obtain rest where
        "snd y = (tr @ [Ev_Listen (sint port)]) @ rest" "list_all service_event rest" by blast
      then have "snd y = tr @ (Ev_Listen (sint port) # rest)
                 \<and> list_all service_event (Ev_Listen (sint port) # rest)" by simp
      then show ?thesis by blast
    qed
  qed
qed

text \<open>
  The attempt on one service, when the manager has a jumphost, is a \<open>service_step\<close>,
  and so is the loop over the services.
\<close>

lemma service_step_refl: "service_step m m"
  by (simp add: service_step_def)

lemma service_step_trans:
  assumes "service_step m m'" and "service_step m' m''"
  shows "service_step m m''"
proof -
  from assms obtain rest rest' where
    "effects m' = effects m @ rest" "list_all service_event rest"
    "effects m'' = effects m' @ rest'" "list_all service_event rest'"
    unfolding service_step_def by blast
  then have "effects m'' = effects m @ (rest @ rest') \<and> list_all service_event (rest @ rest')"
    by simp
  then have "\<exists>rest. effects m'' = effects m @ rest \<and> list_all service_event rest" by blast
  moreover have "dom (map_of (tunnels m)) \<subseteq> dom (map_of (tunnels m''))"
    using assms unfolding service_step_def by blast
  ultimately show ?thesis using assms by (simp add: service_step_def)
qed

lemma service_step_effects:
  "tr' = effects m @ rest \<Longrightarrow> list_all service_event rest \<Longrightarrow> service_step m (m\<lparr>effects := tr'\<rparr>)"
  by (simp add: service_step_def)

lemma GetValue_trace:
  "\<exists>rest. snd (GetValue ssmClient cv placeholder tr) = tr @ rest \<and> list_all service_event rest"
  by (simp add: GetValue_def Let_def)

lemma findAvailablePort_trace:
  "findAvailablePort c start end tr = Some (r, tr')
     \<Longrightarrow> \<exists>rest. tr' = tr @ rest \<and> list_all service_event rest"
  unfolding findAvailablePort_def using findAvailablePort_loop_trace by fastforce

lemma map_of_Store: "map_of (Store ts key v) k = (if k = key then Some v else map_of ts k)"
  by (induction ts) auto

lemma CreateTunnel_launch_step:
  assumes "CreateTunnel_launch c serviceName sc host remotePort m = Some (r, m')"
  shows "service_step m m'"
proof -
  obtain res tr where f: "findAvailablePort c (Start (LocalPortRange sc))
      (End (LocalPortRange sc)) (effects m) = Some (res, tr)"
    using assms by (auto simp: CreateTunnel_launch_def split: option.splits)
  from findAvailablePort_trace [OF f] obtain rest where
    rest: "tr = effects m @ rest" "list_all service_event rest" by blast
  have a: "service_step m (m\<lparr>effects := tr\<rparr>)"
    using rest by (rule service_step_effects)
  have b: "service_step m (m\<lparr>effects := tr @ [Ev_Start argv]\<rparr>)" for argv
    using rest by (intro service_step_effects [where rest = "rest @ [Ev_Start argv]"]) auto
  have c: "service_step m (m\<lparr>tunnels := Store (tunnels m) serviceName cmd,
                              effects := tr @ [Ev_Start argv]\<rparr>)" for argv cmd
    using b [of argv] by (auto simp: service_step_def map_of_Store)
  show ?thesis
    using assms f a b c
    by (auto simp: CreateTunnel_launch_def Let_def split: sum.splits option.splits)
qed

lemma CreateTunnel_jumphost_set:
  "jumphost m = Some j \<Longrightarrow> CreateTunnel_jumphost c m = (Return None, m)"
  by (simp add: CreateTunnel_jumphost_def)

lemma CreateTunnel_step:
  assumes jh: "jumphost m = Some j"
    and run: "CreateTunnel c serviceName sc m = Some (r, m')"
  shows "service_step m m'"
proof -
  obtain r1 tr1 where g1: "GetValue (GetParameter c) (Host sc) (env m) (effects m) = (r1, tr1)"
    by (cases "GetValue (GetParameter c) (Host sc) (env m) (effects m)")
  obtain r2 tr2 where g2: "GetValue (GetParameter c) (RemotePort sc) (env m) tr1 = (r2, tr2)"
    by (cases "GetValue (GetParameter c) (RemotePort sc) (env m) tr1")
  from GetValue_trace [of "GetParameter c" "Host sc" "env m" "effects m"] g1
  obtain rest1 where rest1: "tr1 = effects m @ rest1" "list_all service_event rest1" by auto
  from GetValue_trace [of "GetParameter c" "RemotePort sc" "env m" tr1] g2
  obtain rest2 where rest2: "tr2 = tr1 @ rest2" "list_all service_event rest2" by auto
  have s1: "service_step m (m\<lparr>effects := tr1\<rparr>)"
    using rest1 by (rule service_step_effects)
  have s2: "service_step m (m\<lparr>effects := tr2\<rparr>)"
    using rest1 rest2 by (intro service_step_effects [where rest = "rest1 @ rest2"]) auto
  have jh2: "CreateTunnel_jumphost c (m\<lparr>effects := tr2\<rparr>) = (Return None, m\<lparr>effects := tr2\<rparr>)"
    using jh by (simp add: CreateTunnel_jumphost_set)
  show ?thesis
  proof (cases r1)
    case Panic
    with run g1 s1 show ?thesis by (simp add: CreateTunnel_def)
  next
    case (Return v1)
    show ?thesis
    proof (cases v1)
      case (Inl e)
      with run g1 s1 Return show ?thesis by (simp add: CreateTunnel_def)
    next
      case (Inr host)
      note host = this
      show ?thesis
      proof (cases r2)
        case Panic
        with run g1 g2 s2 Return host show ?thesis by (simp add: CreateTunnel_def)
      next
        case (Return v2)
        show ?thesis
        proof (cases v2)
          case (Inl e)
          with run g1 g2 s2 \<open>r1 = Return v1\<close> host Return show ?thesis
            by (simp add: CreateTunnel_def)
        next
          case (Inr remotePort)
          with run g1 g2 jh2 \<open>r1 = Return v1\<close> host Return
          have "CreateTunnel_launch c serviceName sc host remotePort (m\<lparr>effects := tr2\<rparr>)
                  = Some (r, m')"
            by (simp add: CreateTunnel_def)
          from CreateTunnel_launch_step [OF this] s2 show ?thesis
            by (rule service_step_trans [rotated])
        qed
      qed
    qed
  qed
qed

lemma CreateTunnels_loop_step:
  "jumphost m = Some j \<Longrightarrow> CreateTunnels_loop c services lastError m = Some (r, m')
     \<Longrightarrow> service_step m m'"
proof (induction services arbitrary: lastError m)
  case Nil
  then show ?case by (simp add: service_step_refl)
next
  case (Cons serviceName rest)
  show ?case
  proof (cases "GetServiceConfig (config m) serviceName")
    case (Inl e)
    with Cons show ?thesis by simp
  next
    case (Inr sc)
    show ?thesis
    proof (cases "CreateTunnel c serviceName sc m")
      case None
      with Cons.prems Inr show ?thesis by simp
    next
      case (Some res)
      obtain r1 m1 where res: "res = (r1, m1)" by (cases res)
      have step1: "service_step m m1"
        using CreateTunnel_step [OF Cons.prems(1)] Some res by simp
      then have jh1: "jumphost m1 = Some j" using Cons.prems(1) by (simp add: service_step_def)
      show ?thesis
      proof (cases r1)
        case Panic
        with Cons.prems Inr Some res step1 show ?thesis by simp
      next
        case (Return e)
        with Cons.prems(2) Inr Some res
        have "\<exists>le. CreateTunnels_loop c rest le m1 = Some (r, m')"
          by (cases e) auto
        then obtain le where "CreateTunnels_loop c rest le m1 = Some (r, m')" ..
        from Cons.IH [OF jh1 this] step1 show ?thesis by (rule service_step_trans [rotated])
      qed
    qed
  qed
qed

text \<open>
  The attempt on a service whose port range ends below the greatest integer returns,
  and so does the loop when every service of the batch has such a range.
\<close>

lemma CreateTunnel_launch_returns:
  assumes "sint (End (LocalPortRange sc)) < 2^63 - 1"
  shows "\<exists>r m'. CreateTunnel_launch c serviceName sc host remotePort m = Some (r, m')"
proof -
  have "\<exists>res tr. findAvailablePort c (Start (LocalPortRange sc)) (End (LocalPortRange sc))
                    (effects m) = Some (res, tr)"
    unfolding findAvailablePort_def
    by (simp add: findAvailablePort_loop_find [OF assms] prod_eq_iff)
  then show ?thesis
    by (auto simp: CreateTunnel_launch_def Let_def split: sum.splits option.splits)
qed

lemma CreateTunnel_returns:
  assumes "sint (End (LocalPortRange sc)) < 2^63 - 1"
  shows "\<exists>r m'. CreateTunnel c serviceName sc m = Some (r, m')"
  using CreateTunnel_launch_returns [OF assms]
  by (simp add: CreateTunnel_def split: prod.splits outcome.splits sum.splits option.splits)

lemma CreateTunnels_loop_returns:
  "jumphost m = Some j
     \<Longrightarrow> (\<And>name sc. name \<in> set services \<Longrightarrow> Services (config m) name = Some sc
            \<Longrightarrow> sint (End (LocalPortRange sc)) < 2^63 - 1)
     \<Longrightarrow> \<exists>r m'. CreateTunnels_loop c services lastError m = Some (r, m')"
proof (induction services arbitrary: lastError m)
  case Nil
  then show ?case by simp
next
  case (Cons serviceName rest)
  show ?case
  proof (cases "GetServiceConfig (config m) serviceName")
    case (Inl e)
    have "\<exists>r m'. CreateTunnels_loop c rest (Some e) m = Some (r, m')"
      using Cons.prems(2) by (intro Cons.IH [OF Cons.prems(1)]) auto
    with Inl show ?thesis by simp
  next
    case (Inr sc)
    then have cfg: "Services (config m) serviceName = Some sc"
      by (simp add: GetServiceConfig_def split: option.splits)
    have "sint (End (LocalPortRange sc)) < 2^63 - 1"
      using Cons.prems(2) [OF _ cfg] by simp
    from CreateTunnel_returns [OF this] obtain r1 m1 where
      run: "CreateTunnel c serviceName sc m = Some (r1, m1)" by blast
    from CreateTunnel_step [OF Cons.prems(1) run]
    have jh1: "jumphost m1 = Some j" and cfg1: "config m1 = config m"
      using Cons.prems(1) by (simp_all add: service_step_def)
    have rest: "\<exists>r m'. CreateTunnels_loop c rest le m1 = Some (r, m')" for le
      using Cons.prems(2) cfg1 by (intro Cons.IH [OF jh1]) auto
    show ?thesis
    proof (cases r1)
      case Panic
      with Inr run show ?thesis by simp
    next
      case (Return e)
      with Inr run rest show ?thesis by (cases e) auto
    qed
  qed
qed

lemma Client_GetJumphost_trace:
  "snd (Client_GetJumphost c env' filter0 tr)
     = tr @ [Ev_DescribeInstances
               [(''tag:Name'', [ReplaceAll filter0 ''${PLACEHOLDER}'' env']),
                (''instance-state-name'', [''running''])]]"
  by (simp add: Client_GetJumphost_def Let_def split: sum.splits)

text \<open>A tunnel that was created is registered under its service name, and was started.\<close>

lemma CreateTunnel_launch_registers:
  assumes "CreateTunnel_launch c serviceName sc host remotePort m = Some (Return None, m')"
  shows "\<exists>cmd pre. map_of (tunnels m') serviceName = Some cmd
           \<and> exec_Start c (Args cmd) = Inr (Pid cmd)
           \<and> effects m' = pre @ [Ev_Start (Args cmd)]"
  using assms
  by (auto simp: CreateTunnel_launch_def Let_def map_of_Store
        split: sum.splits option.splits prod.splits)

lemma CreateTunnel_registers:
  assumes "CreateTunnel c serviceName sc m = Some (Return None, m')"
  shows "\<exists>cmd pre. map_of (tunnels m') serviceName = Some cmd
           \<and> exec_Start c (Args cmd) = Inr (Pid cmd)
           \<and> effects m' = pre @ [Ev_Start (Args cmd)]"
proof -
  from assms obtain host remotePort m1 where
    "CreateTunnel_launch c serviceName sc host remotePort m1 = Some (Return None, m')"
    by (auto simp: CreateTunnel_def split: prod.splits outcome.splits sum.splits option.splits)
  then show ?thesis by (rule CreateTunnel_launch_registers)
qed

lemma service_events_no_Kill: "list_all service_event rest \<Longrightarrow> filter is_Kill rest = []"
proof (induction rest)
  case Nil
  then show ?case by simp
next
  case (Cons e rest)
  then show ?case by (cases e) simp_all
qed

lemma service_events_no_DescribeInstances:
  "list_all service_event rest \<Longrightarrow> filter is_DescribeInstances rest = []"
proof (induction rest)
  case Nil
  then show ?case by simp
next
  case (Cons e rest)
  then show ?case by (cases e) simp_all
qed

lemma service_step_no_Kill:
  "service_step m m' \<Longrightarrow> filter is_Kill (effects m') = filter is_Kill (effects m)"
  by (auto simp: service_step_def service_events_no_Kill)

lemma CreateTunnels_keeps_sessions:
  assumes "CreateTunnels c services m = Some (r, m')"
  shows "filter is_Kill (effects m') = filter is_Kill (effects m)
         \<and> dom (map_of (tunnels m)) \<subseteq> dom (map_of (tunnels m'))"
proof -
  obtain res tr0 where jh: "Manager_GetJumphost c m = (res, tr0)"
    by (cases "Manager_GetJumphost c m")
  have "\<exists>fs. tr0 = effects m @ [Ev_DescribeInstances fs]"
    using jh Client_GetJumphost_trace [of c "env m" "GetJumphostFilter (config m) (env m)" "effects m"]
    by (simp add: Manager_GetJumphost_def)
  then have k0: "filter is_Kill tr0 = filter is_Kill (effects m)" by auto
  show ?thesis
  proof (cases res)
    case (Inl e)
    with assms jh k0 show ?thesis by (auto simp: CreateTunnels_def)
  next
    case (Inr inst)
    let ?m1 = "m\<lparr>jumphost := Some inst, effects := tr0\<rparr>"
    show ?thesis
    proof (cases "\<exists>r1. CreateTunnels_loop c services None ?m1 = Some (r1, m')")
      case True
      then obtain r1 where "CreateTunnels_loop c services None ?m1 = Some (r1, m')" ..
      from CreateTunnels_loop_step [OF _ this, of inst] have "service_step ?m1 m'" by simp
      then show ?thesis using k0 service_step_no_Kill [of ?m1 m']
        by (simp add: service_step_def)
    next
      case False
      with assms jh Inr have "m' = ?m1"
        by (auto simp: CreateTunnels_def split: outcome.splits option.splits)
      then show ?thesis using k0 by simp
    qed
  qed
qed

text \<open>The example batch: the jumphost is found, \<open>db\<close> is launched, the host of \<open>redis\<close> fails.\<close>

lemma bastion_filter:
  "ReplaceAll (GetJumphostFilter (config manager_prod) ''prod'') ''${PLACEHOLDER}'' ''prod''
     = ''bastion-prod''"
  unfolding GetJumphostFilter_def manager_prod_def by code_simp

lemma jumphost_batch:
  "Manager_GetJumphost world_jumphost manager_prod
     = (Inr bastion, [Ev_DescribeInstances bastion_filters])"
  using bastion_filter
  by (simp add: Manager_GetJumphost_def Client_GetJumphost_def Let_def manager_prod_fields
        world_jumphost_def world_one_free_def bastion_def bastion_filters_def)

lemma no_jumphost_batch:
  "EC2_DescribeInstances world_one_free bastion_filters = Inr []"
  by (simp add: world_one_free_def)

lemma scan_db:
  "findAvailablePort world_jumphost 5000 5009 tr
     = Some (Inr 5001, tr @ [Ev_Listen 5000, Ev_Listen 5001])"
  unfolding findAvailablePort_def
  by (subst findAvailablePort_loop_find)
     (simp_all add: scan_result_def world_jumphost_def world_one_free_def upto_rec1)

lemma launch_db:
  "CreateTunnel world_jumphost ''db'' service_db
       (manager_prod\<lparr>jumphost := Some bastion, effects := [Ev_DescribeInstances bastion_filters]\<rparr>)
     = Some (Return None,
             manager_prod\<lparr>jumphost := Some bastion, tunnels := [(''db'', db_cmd)],
               effects := [Ev_DescribeInstances bastion_filters, Ev_Listen 5000, Ev_Listen 5001,
                           Ev_Start (Args db_cmd)]\<rparr>)"
proof -
  have "LocalPortRange service_db = \<lparr>Start = 5000, End = 5009\<rparr>"
    "Host service_db = \<lparr>Value = ''db.internal'', SSMParam = []\<rparr>"
    "RemotePort service_db = \<lparr>Value = ''3306'', SSMParam = []\<rparr>"
    by (simp_all add: service_db_def)
  moreover have "InstanceId bastion = Some ''i-0abc''" by (simp add: bastion_def)
  moreover have "exec_Start world_jumphost argv = Inr 4242" for argv
    by (simp add: world_jumphost_def world_one_free_def)
  ultimately show ?thesis
    by (simp add: CreateTunnel_def CreateTunnel_jumphost_def CreateTunnel_launch_def GetValue_def
          scan_db manager_prod_fields db_cmd_def Let_def)
qed

lemma host_redis:
  "GetValue (GetParameter world_jumphost) (Host service_redis) ''prod'' tr
     = (Return (Inl (Wrap ''failed to get parameter /prod/redis/host: '' (Err ''AccessDenied''))),
        tr @ [Ev_GetParameter ''/prod/redis/host''])"
proof -
  have "ReplaceAll ''/${PLACEHOLDER}/redis/host'' ''${PLACEHOLDER}'' ''prod'' = ''/prod/redis/host''"
    by code_simp
  then show ?thesis
    by (simp add: GetValue_def service_redis_def GetParameter_def GetParameterValue_def
          world_jumphost_def world_one_free_def Let_def)
qed

text \<open>
  C3. In a batch \<open>[A, B]\<close> where the jumphost is found, the tunnel of \<open>A\<close> is created
  and the host of \<open>B\<close> does not resolve, \<open>CreateTunnels\<close> returns one error, which wraps
  the failure of \<open>B\<close> and names \<open>B\<close>; in the manager it leaves, \<open>A\<close> is registered with
  the process that was started for it, and no process has been killed. More generally,
  whatever the batch, \<open>CreateTunnels\<close> kills no process and every name registered
  before is registered after.
\<close>

theorem CreateTunnels_partial_success:
  assumes jh: "Manager_GetJumphost c m = (Inr inst, tr0)"
    and nm: "getInstanceName inst = Return instanceName"
    and iid: "InstanceId inst = Some instanceId"
    and cfgA: "Services (config m) A = Some scA"
    and cfgB: "Services (config m) B = Some scB"
    and launchA: "CreateTunnel c A scA (m\<lparr>jumphost := Some inst, effects := tr0\<rparr>)
                    = Some (Return None, mA)"
    and hostB: "GetValue (GetParameter c) (Host scB) (env m) (effects mA) = (Return (Inl err), trB)"
  shows "CreateTunnels c [A, B] m
           = Some (Return (Some (Wrap ''one or more tunnels failed to create: ''
                                   (Wrap (''failed to get host for '' @ B @ '': '') err))),
                   mA\<lparr>effects := trB\<rparr>)
         \<and> (\<exists>cmd. map_of (tunnels (mA\<lparr>effects := trB\<rparr>)) A = Some cmd
               \<and> exec_Start c (Args cmd) = Inr (Pid cmd)
               \<and> Ev_Start (Args cmd) \<in> set trB)
         \<and> filter is_Kill trB = filter is_Kill (effects m)
         \<and> (\<forall>services r m'. CreateTunnels c services m = Some (r, m')
               \<longrightarrow> filter is_Kill (effects m') = filter is_Kill (effects m)
                   \<and> dom (map_of (tunnels m)) \<subseteq> dom (map_of (tunnels m')))"
proof -
  let ?m1 = "m\<lparr>jumphost := Some inst, effects := tr0\<rparr>"
  have stepA: "service_step ?m1 mA"
    using CreateTunnel_step [OF _ launchA, of inst] by simp
  then have keep: "config mA = config m" "env mA = env m"
    by (simp_all add: service_step_def)
  have runB: "CreateTunnel c B scB mA
                = Some (Return (Some (Wrap (''failed to get host for '' @ B @ '': '') err)),
                        mA\<lparr>effects := trB\<rparr>)"
    using hostB keep by (simp add: CreateTunnel_def)
  have loop: "CreateTunnels_loop c [A, B] None ?m1
                = Some (Return (Some (Wrap (''failed to get host for '' @ B @ '': '') err)),
                        mA\<lparr>effects := trB\<rparr>)"
    using cfgA cfgB launchA runB keep by (simp add: GetServiceConfig_def)
  have result: "CreateTunnels c [A, B] m
           = Some (Return (Some (Wrap ''one or more tunnels failed to create: ''
                                   (Wrap (''failed to get host for '' @ B @ '': '') err))),
                   mA\<lparr>effects := trB\<rparr>)"
    using jh nm iid loop by (simp add: CreateTunnels_def)
  from CreateTunnel_registers [OF launchA] obtain cmd pre where
    cmd: "map_of (tunnels mA) A = Some cmd" "exec_Start c (Args cmd) = Inr (Pid cmd)"
      "effects mA = pre @ [Ev_Start (Args cmd)]" by blast
  from GetValue_trace [of "GetParameter c" "Host scB" "env m" "effects mA"] hostB
  obtain rest where "trB = effects mA @ rest" by auto
  with cmd have registered: "\<exists>cmd. map_of (tunnels (mA\<lparr>effects := trB\<rparr>)) A = Some cmd
               \<and> exec_Start c (Args cmd) = Inr (Pid cmd) \<and> Ev_Start (Args cmd) \<in> set trB"
    by auto
  have running: "filter is_Kill trB = filter is_Kill (effects m)"
    using CreateTunnels_keeps_sessions [OF result] by simp
  show ?thesis
    using result registered running CreateTunnels_keeps_sessions by blast
qed

theorem CreateTunnels_partial_success_witness:
  "CreateTunnels world_jumphost [''db'', ''redis''] manager_prod
     = Some (Return (Some (Wrap ''one or more tunnels failed to create: ''
                       (Wrap ''failed to get host for redis: ''
                          (Wrap ''failed to get parameter /prod/redis/host: ''
                             (Err ''AccessDenied''))))),
             manager_prod\<lparr>jumphost := Some bastion, tunnels := [(''db'', db_cmd)],
               effects := [Ev_DescribeInstances bastion_filters, Ev_Listen 5000, Ev_Listen 5001,
                           Ev_Start (Args db_cmd), Ev_GetParameter ''/prod/redis/host'']\<rparr>)
   \<and> filter is_Kill [Ev_DescribeInstances bastion_filters, Ev_Listen 5000, Ev_Listen 5001,
                      Ev_Start (Args db_cmd), Ev_GetParameter ''/prod/redis/host''] = []"
  using CreateTunnels_partial_success
    [OF jumphost_batch _ _ manager_prod_fields(6) manager_prod_fields(7) launch_db,
     of "''bastion-prod''" "''i-0abc''"
        "Wrap ''failed to get parameter /prod/redis/host: '' (Err ''AccessDenied'')"
        "[Ev_DescribeInstances bastion_filters, Ev_Listen 5000, Ev_Listen 5001,
          Ev_Start (Args db_cmd), Ev_GetParameter ''/prod/redis/host'']"]
    host_redis
  by (simp add: getInstanceName_def bastion_def manager_prod_fields)

text \<open>
  C4. \<open>CreateTunnels\<close> queries the instances exactly once, before anything else: when
  every service of the batch has a port range that ends below the greatest integer, it
  returns, and the trace it leaves is the query followed by parameter fetches, port
  probes and process starts only, so by no second query. When the query finds no
  running instance, the call returns the error of the missing jumphost and nothing else
  has happened: the trace has the query alone, and registry and jumphost are as before.
\<close>

theorem CreateTunnels_jumphost_first:
  fixes c :: world and m :: Manager and services :: "string list"
  defines "filter' \<equiv> ReplaceAll (GetJumphostFilter (config m) (env m)) ''${PLACEHOLDER}'' (env m)"
  defines "filters \<equiv> [(''tag:Name'', [filter']), (''instance-state-name'', [''running''])]"
  shows "((\<forall>name sc. name \<in> set services \<and> Services (config m) name = Some sc
             \<longrightarrow> sint (End (LocalPortRange sc)) < 2^63 - 1)
          \<longrightarrow> (\<exists>r m' rest. CreateTunnels c services m = Some (r, m')
                  \<and> effects m' = effects m @ Ev_DescribeInstances filters # rest
                  \<and> list_all service_event rest
                  \<and> filter is_DescribeInstances rest = []))
       \<and> ((\<exists>reservations. EC2_DescribeInstances c filters = Inr reservations
              \<and> list_all (\<lambda>instance. State instance \<noteq> Some ''running'') (concat reservations))
          \<longrightarrow> CreateTunnels c services m
                = Some (Return (Some (Wrap ''failed to find jumphost instance: ''
                          (Err (''no running instances found matching filter: '' @ filter')))),
                        m\<lparr>effects := effects m @ [Ev_DescribeInstances filters]\<rparr>))"
proof (intro conjI impI)
  assume ranges: "\<forall>name sc. name \<in> set services \<and> Services (config m) name = Some sc
             \<longrightarrow> sint (End (LocalPortRange sc)) < 2^63 - 1"
  obtain res tr0 where jh: "Manager_GetJumphost c m = (res, tr0)"
    by (cases "Manager_GetJumphost c m")
  have tr0: "tr0 = effects m @ [Ev_DescribeInstances filters]"
    using jh Client_GetJumphost_trace [of c "env m" "GetJumphostFilter (config m) (env m)" "effects m"]
    by (simp add: Manager_GetJumphost_def filters_def filter'_def)
  show "\<exists>r m' rest. CreateTunnels c services m = Some (r, m')
          \<and> effects m' = effects m @ Ev_DescribeInstances filters # rest
          \<and> list_all service_event rest
          \<and> filter is_DescribeInstances rest = []"
  proof (cases res)
    case (Inl e)
    with jh tr0 show ?thesis by (simp add: CreateTunnels_def)
  next
    case (Inr inst)
    let ?m1 = "m\<lparr>jumphost := Some inst, effects := tr0\<rparr>"
    show ?thesis
    proof (cases "getInstanceName inst")
      case Panic
      with jh tr0 Inr show ?thesis by (simp add: CreateTunnels_def)
    next
      case (Return instanceName)
      show ?thesis
      proof (cases "InstanceId inst")
        case None
        with jh tr0 Inr Return show ?thesis by (simp add: CreateTunnels_def)
      next
        case (Some instanceId)
        have "\<exists>r m'. CreateTunnels_loop c services None ?m1 = Some (r, m')"
          using ranges by (intro CreateTunnels_loop_returns [where j = inst]) auto
        then obtain r1 m1 where loop: "CreateTunnels_loop c services None ?m1 = Some (r1, m1)"
          by blast
        from CreateTunnels_loop_step [OF _ loop, of inst]
        obtain rest where rest: "effects m1 = tr0 @ rest" "list_all service_event rest"
          by (auto simp: service_step_def)
        have "\<exists>r. CreateTunnels c services m = Some (r, m1)"
          using jh Inr Return Some loop
          by (simp add: CreateTunnels_def split: outcome.splits option.splits)
        then show ?thesis
          using rest tr0 service_events_no_DescribeInstances [OF rest(2)] by auto
      qed
    qed
  qed
next
  assume "\<exists>reservations. EC2_DescribeInstances c filters = Inr reservations
            \<and> list_all (\<lambda>instance. State instance \<noteq> Some ''running'') (concat reservations)"
  then obtain reservations where out: "EC2_DescribeInstances c filters = Inr reservations"
    and none: "list_all (\<lambda>instance. State instance \<noteq> Some ''running'') (concat reservations)"
    by blast
  have "filter (\<lambda>instance. State instance = Some ''running'') (concat reservations) = []"
    using none by (simp add: filter_empty_conv list_all_iff)
  then have "Manager_GetJumphost c m
               = (Inl (Err (''no running instances found matching filter: '' @ filter')),
                  effects m @ [Ev_DescribeInstances filters])"
    using out
    by (simp add: Manager_GetJumphost_def Client_GetJumphost_def Let_def filters_def filter'_def)
  then show "CreateTunnels c services m
                = Some (Return (Some (Wrap ''failed to find jumphost instance: ''
                          (Err (''no running instances found matching filter: '' @ filter')))),
                        m\<lparr>effects := effects m @ [Ev_DescribeInstances filters]\<rparr>)"
    by (simp add: CreateTunnels_def)
qed

theorem CreateTunnels_jumphost_first_witness:
  "(\<exists>r m' rest. CreateTunnels world_jumphost [''db'', ''redis''] manager_prod = Some (r, m')
       \<and> effects m' = Ev_DescribeInstances bastion_filters # rest
       \<and> list_all service_event rest
       \<and> filter is_DescribeInstances rest = [])
   \<and> CreateTunnels world_one_free [''db'', ''redis''] manager_prod
       = Some (Return (Some (Wrap ''failed to find jumphost instance: ''
                 (Err ''no running instances found matching filter: bastion-prod''))),
               manager_prod\<lparr>effects := [Ev_DescribeInstances bastion_filters]\<rparr>)"
proof -
  have ranges: "\<forall>name sc. name \<in> set [''db'', ''redis'']
                  \<and> Services (config manager_prod) name = Some sc
                \<longrightarrow> sint (End (LocalPortRange sc)) < 2^63 - 1"
    by (auto simp: manager_prod_def service_db_def service_redis_def)
  have none: "\<exists>reservations. EC2_DescribeInstances world_one_free bastion_filters = Inr reservations
                \<and> list_all (\<lambda>instance. State instance \<noteq> Some ''running'') (concat reservations)"
    by (simp add: no_jumphost_batch)
  show ?thesis
    using ranges none
      CreateTunnels_jumphost_first [of "[''db'', ''redis'']" manager_prod world_jumphost]
      CreateTunnels_jumphost_first [of "[''db'', ''redis'']" manager_prod world_one_free]
    by (simp add: bastion_filter manager_prod_fields bastion_filters_def)
qed

end
